theory Spec2Isabelle
  imports Complex_Main
begin

section \<open>Python values used by the report generator\<close>

text \<open>
  A Python \<open>str\<close> is a sequence of Unicode code points, so a string is modelled as a list
  of code points (natural numbers); \<open>py\<close> embeds an ASCII literal.  A Python float is
  a real number that is an IEEE double, and the float subtractions, multiplications and
  divisions of \<open>to_pdf_y\<close>, of the image size and of the drawing positions round their
  exact result to the nearest double (\<open>to_double\<close>, below); overflow to infinity and NaN
  are outside the model.  The products of \<open>mosabbir_default_coords\<close> are kept exact.
\<close>

type_synonym pystr = "nat list"

definition py :: "string \<Rightarrow> pystr" where
  "py s = map of_char s"

text \<open>\<open>str.isspace\<close> for one code point (the Unicode white-space characters).\<close>

definition isspace :: "nat \<Rightarrow> bool" where
  "isspace c \<longleftrightarrow>
     (9 \<le> c \<and> c \<le> 13) \<or> (28 \<le> c \<and> c \<le> 32) \<or> c = 133 \<or> c = 160 \<or> c = 5760 \<or>
     (8192 \<le> c \<and> c \<le> 8202) \<or> c = 8232 \<or> c = 8233 \<or> c = 8239 \<or> c = 8287 \<or> c = 12288"

text \<open>\<open>s.strip()\<close>: white space removed at both ends.\<close>

definition py_strip :: "pystr \<Rightarrow> pystr" where
  "py_strip s = rev (dropWhile isspace (rev (dropWhile isspace s)))"

text \<open>\<open>s.replace(" ", "_")\<close>.\<close>

definition replace_space :: "pystr \<Rightarrow> pystr" where
  "replace_space s = map (\<lambda>c. if c = 32 then 95 else c) s"

text \<open>The characters kept by \<open>re.sub(r"[^A-Za-z0-9_\-]", "", s)\<close>.\<close>

definition slug_char :: "nat \<Rightarrow> bool" where
  "slug_char c \<longleftrightarrow>
     (65 \<le> c \<and> c \<le> 90) \<or> (97 \<le> c \<and> c \<le> 122) \<or> (48 \<le> c \<and> c \<le> 57) \<or> c = 95 \<or> c = 45"

text \<open>Decimal digits of a natural number, and \<open>str\<close> of a Python \<open>int\<close>.\<close>

fun dec :: "nat \<Rightarrow> pystr" where
  "dec n = (if n < 10 then [48 + n] else dec (n div 10) @ [48 + n mod 10])"

declare dec.simps [simp del]

definition str_int :: "int \<Rightarrow> pystr" where
  "str_int i = (if i < 0 then 45 # dec (nat (- i)) else dec (nat i))"

text \<open>
  The format specification \<open>02d\<close> of \<open>f"{bed_id:02d}"\<close>: the sign, then the digits padded
  with zeros on the left to a width of at least two.
\<close>

definition format_02d :: "int \<Rightarrow> pystr" where
  "format_02d i =
     (if i < 0 then 45 # replicate (1 - length (dec (nat (- i)))) 48 @ dec (nat (- i))
      else replicate (2 - length (dec (nat i))) 48 @ dec (nat i))"

text \<open>Python 3 \<open>round\<close> with one argument: nearest integer, ties to the even one.\<close>

definition py_round :: "real \<Rightarrow> int" where
  "py_round x =
     (let f = \<lfloor>x\<rfloor>; d = x - of_int f
      in if d < 1 / 2 then f else if 1 / 2 < d then f + 1
         else if even f then f else f + 1)"

section \<open>Binary floating point\<close>

text \<open>\<open>int.bit_length\<close>: the number of binary digits of a natural number.\<close>

fun bit_length :: "nat \<Rightarrow> nat" where
  "bit_length n = (if n = 0 then 0 else Suc (bit_length (n div 2)))"

declare bit_length.simps [simp del]

text \<open>
  A double is an integer multiple of a power of two, its quantum, with a multiplier of
  at most 53 binary digits.  The quantum of the doubles near \<open>x\<close> has the exponent
  \<open>e - 52\<close> for \<open>2^e \<le> |x| < 2^(e+1)\<close>, and never less than \<open>-1074\<close> (the subnormal
  numbers).  \<open>to_double\<close> rounds a real number to the nearest double, ties to the even
  multiplier, as every float operation of Python does with its exact result.
\<close>

definition min_exp :: nat where
  "min_exp = 1074"

definition quantum_exp :: "real \<Rightarrow> int" where
  "quantum_exp x =
     max (int (bit_length (nat \<lfloor>\<bar>x\<bar> * 2 ^ min_exp\<rfloor>)) - int min_exp - 53) (- int min_exp)"

definition to_double :: "real \<Rightarrow> real" where
  "to_double x = (let q = quantum_exp x in of_int (py_round (x / 2 powi q)) * 2 powi q)"

definition is_double :: "real \<Rightarrow> bool" where
  "is_double x \<longleftrightarrow> to_double x = x"

text \<open>The float operations \<open>a - b\<close>, \<open>a * b\<close> and \<open>a / b\<close> (for \<open>b \<noteq> 0\<close>).\<close>

definition float_sub :: "real \<Rightarrow> real \<Rightarrow> real" where
  "float_sub a b = to_double (a - b)"

definition float_mul :: "real \<Rightarrow> real \<Rightarrow> real" where
  "float_mul a b = to_double (a * b)"

definition float_div :: "real \<Rightarrow> real \<Rightarrow> real" where
  "float_div a b = to_double (a / b)"

section \<open>utils.py\<close>

text \<open>
  \<open>slugify_filename(s, fallback="report")\<close>.  The argument is a \<open>str\<close> by its type here,
  so the \<open>isinstance\<close> test of the source always passes.
\<close>

definition slugify_filename :: "pystr \<Rightarrow> pystr \<Rightarrow> pystr" where
  "slugify_filename s fallback =
     (if py_strip s = [] then fallback
      else (let s1 = replace_space (py_strip s);
                s2 = filter slug_char s1
            in if s2 = [] then fallback else s2))"

text \<open>The call with the default fallback, as every caller in the repository makes it.\<close>

definition slugify :: "pystr \<Rightarrow> pystr" where
  "slugify s = slugify_filename s (py ''report'')"

text \<open>
  \<open>to_pdf_y(y_from_top, page_height) = max(0, min(page_height, page_height - y_from_top))\<close>,
  on floats: every caller passes \<open>float(y_top)\<close> and a float page height.
\<close>

definition to_pdf_y :: "real \<Rightarrow> real \<Rightarrow> real" where
  "to_pdf_y y_from_top page_height =
     max 0 (min page_height (float_sub page_height y_from_top))"

section \<open>template\_coords.py\<close>

definition ratios :: "(string \<times> real \<times> real) list" where
  "ratios =
    [(''bed_id'',            (390070922 / 1000000000, 119798235 / 1000000000)),
     (''name'',              (407801418 / 1000000000, 233291299 / 1000000000)),
     (''age'',               (407801418 / 1000000000, 271122320 / 1000000000)),
     (''gender'',            (407801418 / 1000000000, 308953342 / 1000000000)),
     (''attendees'',         (407801418 / 1000000000, 346784363 / 1000000000)),
     (''image'',             (664893617 / 1000000000, 208070618 / 1000000000)),
     (''date_of_diagnosis'', (425531915 / 1000000000, 706179067 / 1000000000)),
     (''cancer_type'',       (425531915 / 1000000000, 744010088 / 1000000000)),
     (''cancer_stage'',      (425531915 / 1000000000, 781841110 / 1000000000)),
     (''cancer_grade'',      (425531915 / 1000000000, 819672131 / 1000000000))]"

text \<open>One entry of the dictionary comprehension: \<open>(int(round(rx * W)), int(round(ry * H)))\<close>.\<close>

definition ratio_to_points :: "real \<Rightarrow> real \<Rightarrow> real \<Rightarrow> real \<Rightarrow> int \<times> int" where
  "ratio_to_points rx ry page_width page_height =
     (py_round (rx * page_width), py_round (ry * page_height))"

definition mosabbir_default_coords :: "real \<Rightarrow> real \<Rightarrow> (string \<times> int \<times> int) list" where
  "mosabbir_default_coords page_width page_height =
     map (\<lambda>(k, rx, ry). (k, ratio_to_points rx ry page_width page_height)) ratios"

section \<open>The world outside the program\<close>

text \<open>
  Values of one cell of a row of the data frame after \<open>fillna("")\<close>: a string or an
  integer.  \<open>py_str\<close> is Python's \<open>str\<close> on such a value.
\<close>

datatype cell = CStr pystr | CInt int

fun py_str :: "cell \<Rightarrow> pystr" where
  "py_str (CStr s) = s"
| "py_str (CInt i) = str_int i"

type_synonym row = "string \<rightharpoonup> cell"

text \<open>\<open>patient_data.get(key, default)\<close>.\<close>

definition row_get :: "row \<Rightarrow> string \<Rightarrow> cell \<Rightarrow> cell" where
  "row_get r k d = (case r k of None \<Rightarrow> d | Some v \<Rightarrow> v)"

text \<open>
  What a ReportLab canvas records, in drawing order, and a PDF page: its media box
  (\<open>None\<close> when reading the geometry raises) and what is painted on it.
\<close>

datatype draw_op =
    SetFont string real
  | DrawString real real pystr
  | DrawRightString real real pystr
  | DrawImage pystr real real real real

record page =
  mediabox :: "(real \<times> real) option"
  content :: "draw_op list"

text \<open>
  A file of the file system: a PDF document with its pages, an image with its pixel size,
  an image file whose header gives a pixel size but whose data cannot be decoded, a CSV
  table with its rows, or anything else that exists.  A path that is not in the map does
  not exist.
\<close>

datatype fs_entry =
    PdfFile "page list"
  | ImageFile int int
  | BrokenImageFile int int
  | CsvFile "row list"
  | OtherFile

type_synonym filesystem = "pystr \<rightharpoonup> fs_entry"

datatype error = PdfReadError | IndexError | MediaBoxError | OSError | CsvReadError

text \<open>
  Library functions whose results the program only passes on are parameters:
  \<open>os.path.join\<close>, \<open>os.path.normpath\<close>, \<open>os.path.dirname\<close>, whether \<open>open(path, "wb")\<close>
  succeeds, the formatted local time, and the text of the exception that \<open>Image.open\<close>
  or \<open>drawImage\<close> raises on a file it cannot read.
\<close>

record env =
  os_path_join :: "pystr \<Rightarrow> pystr \<Rightarrow> pystr"
  os_path_normpath :: "pystr \<Rightarrow> pystr"
  os_path_dirname :: "pystr \<Rightarrow> pystr"
  can_write :: "pystr \<Rightarrow> bool"
  now :: pystr
  image_error :: "pystr \<Rightarrow> pystr"

text \<open>
  The field-position dictionaries are objects on a heap: the application and a report
  generator hold references (addresses) to them, so an assignment to an entry of a
  dictionary is seen through every reference to it.
\<close>

type_synonym coords = "string \<rightharpoonup> (real \<times> real)"
type_synonym addr = nat

datatype message =
    Error_SelectCsv
  | Error_SelectTemplate
  | Warning_Record cell error
  | Info_All nat
  | Warning_Partial nat nat
  | Error_Occurred error

datatype status =
    Ready
  | ReadingCsv
  | Generating nat nat pystr
  | Done nat nat
  | ErrorDuringGeneration

text \<open>
  The state of the running application: the attributes of
  \<open>SimplePatientReportGenerator\<close> that report generation reads, the heap of dictionaries
  with its next free address, the file system, the message boxes shown so far and the
  status line.
\<close>

record state =
  csv_path :: "pystr option"
  template_path :: "pystr option"
  field_coordinates :: addr
  heap :: "addr \<Rightarrow> coords"
  lim :: addr
  files :: filesystem
  messages :: "message list"
  status :: status

section \<open>template\_editor.py: reading the page size\<close>

text \<open>
  \<open>PdfReader(path)\<close>, \<open>reader.pages[0]\<close> and the two \<open>mediabox\<close> reads, each of which
  may raise.
\<close>

definition PdfReader :: "filesystem \<Rightarrow> pystr \<Rightarrow> error + page list" where
  "PdfReader fs path = (case fs path of Some (PdfFile pages) \<Rightarrow> Inr pages | _ \<Rightarrow> Inl PdfReadError)"

definition first_page :: "page list \<Rightarrow> error + page" where
  "first_page pages = (case pages of [] \<Rightarrow> Inl IndexError | p # _ \<Rightarrow> Inr p)"

definition page_size :: "page \<Rightarrow> error + real \<times> real" where
  "page_size p = (case mediabox p of None \<Rightarrow> Inl MediaBoxError | Some wh \<Rightarrow> Inr wh)"

text \<open>\<open>TemplateFieldEditor._read_template_size\<close>: any exception gives the Letter size.\<close>

definition read_template_size :: "filesystem \<Rightarrow> pystr \<Rightarrow> real \<times> real" where
  "read_template_size fs path =
     (case PdfReader fs path of
        Inl e \<Rightarrow> (612, 792)
      | Inr pages \<Rightarrow>
          (case first_page pages of
             Inl e \<Rightarrow> (612, 792)
           | Inr p \<Rightarrow> (case page_size p of Inl e \<Rightarrow> (612, 792) | Inr wh \<Rightarrow> wh)))"

section \<open>report\_generator.py\<close>

record generator =
  gen_template_path :: pystr
  gen_field_coordinates :: addr

text \<open>\<open>ReportGenerator.__init__\<close> stores the reference it is given; nothing is copied.\<close>

definition ReportGenerator :: "pystr \<Rightarrow> addr \<Rightarrow> generator" where
  "ReportGenerator tp fc = \<lparr>gen_template_path = tp, gen_field_coordinates = fc\<rparr>"

text \<open>The local function \<open>draw_text(key, txt)\<close> of \<open>_draw_text_fields\<close>.\<close>

definition draw_text :: "coords \<Rightarrow> real \<Rightarrow> real \<Rightarrow> draw_op list \<Rightarrow> string \<times> cell \<Rightarrow> draw_op list" where
  "draw_text fc page_width page_height canvas kt =
     (case fc (fst kt) of
        None \<Rightarrow> canvas
      | Some (x_top, y_top) \<Rightarrow>
          canvas @ [DrawString (max 0 (min page_width x_top)) (to_pdf_y y_top page_height)
                      (py_str (snd kt))])"

text \<open>\<open>_draw_text_fields\<close>: the nine calls of \<open>draw_text\<close>, in the order of the source.\<close>

definition draw_text_fields ::
  "coords \<Rightarrow> row \<Rightarrow> int \<Rightarrow> real \<Rightarrow> real \<Rightarrow> draw_op list \<Rightarrow> draw_op list" where
  "draw_text_fields fc patient_data bed_id page_width page_height canvas =
     foldl (draw_text fc page_width page_height) canvas
       [(''bed_id'', CStr (format_02d bed_id)),
        (''name'', row_get patient_data ''name'' (CStr [])),
        (''age'', row_get patient_data ''age'' (CStr [])),
        (''gender'', row_get patient_data ''gender'' (CStr [])),
        (''attendees'', row_get patient_data ''attendees'' (CStr [])),
        (''date_of_diagnosis'', row_get patient_data ''date_of_diagnosis'' (CStr [])),
        (''cancer_type'', row_get patient_data ''cancer_type'' (CStr [])),
        (''cancer_stage'', row_get patient_data ''cancer_stage'' (CStr [])),
        (''cancer_grade'', row_get patient_data ''cancer_grade'' (CStr []))]"

definition draw_image_placeholder :: "draw_op list \<Rightarrow> real \<Rightarrow> real \<Rightarrow> pystr \<Rightarrow> draw_op list" where
  "draw_image_placeholder canvas x y message =
     canvas @ [SetFont ''Helvetica'' 9, DrawString x y message, SetFont ''Helvetica'' 12]"

text \<open>
  \<open>Image.open(img_path).size\<close>, which reads the header only and raises on a file that is
  not an image.
\<close>

definition Image_open_size :: "env \<Rightarrow> filesystem \<Rightarrow> pystr \<Rightarrow> pystr + int \<times> int" where
  "Image_open_size e fs img_path =
     (case fs img_path of
        Some (ImageFile iw ih) \<Rightarrow> Inr (iw, ih)
      | Some (BrokenImageFile iw ih) \<Rightarrow> Inr (iw, ih)
      | _ \<Rightarrow> Inl (image_error e img_path))"

text \<open>
  The exception, if any, that \<open>canvas.drawImage(img_path, ...)\<close> raises: it decodes the
  whole image.
\<close>

definition drawImage_error :: "env \<Rightarrow> filesystem \<Rightarrow> pystr \<Rightarrow> pystr option" where
  "drawImage_error e fs img_path =
     (case fs img_path of
        Some (ImageFile iw ih) \<Rightarrow> None
      | _ \<Rightarrow> Some (image_error e img_path))"

text \<open>
  The size computation of \<open>_draw_patient_image\<close>: \<open>max_side = 1.8 * 72.0\<close>, the longer
  side set to it.  \<open>1.8\<close> is the double nearest to 18/10; the quotient of the two
  integers is the double nearest to their exact quotient, and raises
  \<open>ZeroDivisionError\<close> on a zero divisor.
\<close>

definition max_side :: real where
  "max_side = float_mul (to_double (18 / 10)) 72"

definition image_draw_size :: "int \<Rightarrow> int \<Rightarrow> pystr + real \<times> real" where
  "image_draw_size iw ih =
     (if iw \<ge> ih then
        (if iw = 0 then Inl (py ''division by zero'')
         else Inr (max_side, float_mul (float_div (of_int ih) (of_int iw)) max_side))
      else
        (if ih = 0 then Inl (py ''division by zero'')
         else Inr (float_mul (float_div (of_int iw) (of_int ih)) max_side, max_side)))"

text \<open>
  \<open>_draw_patient_image\<close>.  The \<open>try\<close> block covers opening the image, computing the
  size and \<open>drawImage\<close>; an exception of any of the three draws the placeholder with
  its text.
\<close>

definition draw_patient_image ::
  "env \<Rightarrow> filesystem \<Rightarrow> coords \<Rightarrow> row \<Rightarrow> pystr \<Rightarrow> real \<Rightarrow> real \<Rightarrow> draw_op list \<Rightarrow> draw_op list" where
  "draw_patient_image e fs fc patient_data csv_dir page_width page_height canvas =
     (case fc ''image'' of
        None \<Rightarrow> canvas
      | Some (img_x_top, img_y_top) \<Rightarrow>
          (let img_x = max 0 (min page_width img_x_top);
               img_y = to_pdf_y img_y_top page_height;
               rel = py_strip (py_str (row_get patient_data ''image_path'' (CStr [])))
           in if rel = [] then draw_image_placeholder canvas img_x img_y (py ''No image path'')
              else
                (let img_path = os_path_normpath e (os_path_join e csv_dir rel)
                 in if fs img_path = None
                    then draw_image_placeholder canvas img_x img_y (py ''Image not found'')
                    else
                      (case Image_open_size e fs img_path of
                         Inl msg \<Rightarrow>
                           draw_image_placeholder canvas img_x img_y (py ''Image Error: '' @ msg)
                       | Inr (iw, ih) \<Rightarrow>
                           (case image_draw_size iw ih of
                              Inl msg \<Rightarrow>
                                draw_image_placeholder canvas img_x img_y
                                  (py ''Image Error: '' @ msg)
                            | Inr (new_w, new_h) \<Rightarrow>
                                (case drawImage_error e fs img_path of
                                   Some msg \<Rightarrow>
                                     draw_image_placeholder canvas img_x img_y
                                       (py ''Image Error: '' @ msg)
                                 | None \<Rightarrow>
                                     canvas @ [DrawImage img_path img_x (float_sub img_y new_h)
                                                 new_w new_h]))))))"

definition add_timestamp :: "env \<Rightarrow> draw_op list \<Rightarrow> real \<Rightarrow> draw_op list" where
  "add_timestamp e canvas page_width =
     canvas @ [SetFont ''Helvetica'' 8,
               DrawRightString (float_sub page_width 20) 15 (py ''Generated: '' @ now e)]"

text \<open>The overlay drawn between \<open>rl_canvas.Canvas(...)\<close> and \<open>can.save()\<close>.\<close>

definition overlay ::
  "env \<Rightarrow> filesystem \<Rightarrow> coords \<Rightarrow> row \<Rightarrow> pystr \<Rightarrow> int \<Rightarrow> real \<Rightarrow> real \<Rightarrow> draw_op list" where
  "overlay e fs fc patient_data csv_dir bed_id page_width page_height =
     (let can = [SetFont ''Helvetica'' 12];
          can = draw_text_fields fc patient_data bed_id page_width page_height can;
          can = draw_patient_image e fs fc patient_data csv_dir page_width page_height can
      in add_timestamp e can page_width)"

text \<open>\<open>base_page.merge_page(overlay)\<close>: the overlay is painted over the template page.\<close>

definition merge_page :: "page \<Rightarrow> draw_op list \<Rightarrow> page" where
  "merge_page base_page ov = base_page\<lparr>content := content base_page @ ov\<rparr>"

text \<open>
  \<open>create_patient_report\<close>: the dictionary is read through the generator's reference at
  the time of the call.  An exception leaves the state as it was; success writes the
  one-page document and returns its path.
\<close>

definition create_patient_report ::
  "env \<Rightarrow> generator \<Rightarrow> row \<Rightarrow> pystr \<Rightarrow> int \<Rightarrow> pystr \<Rightarrow> state \<Rightarrow> error + pystr \<times> state" where
  "create_patient_report e gen patient_data csv_dir bed_id output_dir st =
     (let base_name = slugify (py_str (row_get patient_data ''name'' (CStr [])));
          output_path = os_path_join e output_dir (base_name @ py ''_report.pdf'')
      in case PdfReader (files st) (gen_template_path gen) of
           Inl err \<Rightarrow> Inl err
         | Inr pages \<Rightarrow>
             (case first_page pages of
                Inl err \<Rightarrow> Inl err
              | Inr template_page \<Rightarrow>
                  (case page_size template_page of
                     Inl err \<Rightarrow> Inl err
                   | Inr (page_width, page_height) \<Rightarrow>
                       (let ov = overlay e (files st) (heap st (gen_field_coordinates gen))
                                   patient_data csv_dir bed_id page_width page_height;
                            base_page = merge_page template_page ov
                        in if can_write e output_path
                           then Inr (output_path,
                                     st\<lparr>files := (files st)(output_path \<mapsto> PdfFile [base_page])\<rparr>)
                           else Inl OSError))))"

section \<open>app.py\<close>

text \<open>
  \<open>self.root.update()\<close> lets pending handlers of the user interface run before it
  returns.  What they do to the field-position mapping is a list of changes, each one
  an assignment to an entry of the dictionary the application refers to, the removal of
  an entry, or the binding of the attribute to a newly created dictionary (the only
  kind \<open>select_template\<close> and \<open>edit_template\<close> make: \<open>self.field_coordinates = ...\<close>).
\<close>

datatype mutation = SetItem string "real \<times> real" | DelItem string | Rebind coords

fun apply_mutation :: "state \<Rightarrow> mutation \<Rightarrow> state" where
  "apply_mutation st (SetItem k v) =
     st\<lparr>heap := (heap st)(field_coordinates st := (heap st (field_coordinates st))(k \<mapsto> v))\<rparr>"
| "apply_mutation st (DelItem k) =
     st\<lparr>heap := (heap st)(field_coordinates st := (heap st (field_coordinates st))(k := None))\<rparr>"
| "apply_mutation st (Rebind m) =
     st\<lparr>heap := (heap st)(lim st := m), field_coordinates := lim st, lim := lim st + 1\<rparr>"

definition root_update :: "mutation list \<Rightarrow> state \<Rightarrow> state" where
  "root_update evs st = foldl apply_mutation st evs"

text \<open>\<open>pd.read_csv(path).fillna("")\<close>.\<close>

definition read_csv :: "filesystem \<Rightarrow> pystr \<Rightarrow> error + row list" where
  "read_csv fs path = (case fs path of Some (CsvFile rows) \<Rightarrow> Inr rows | _ \<Rightarrow> Inl CsvReadError)"

text \<open>
  The loop \<open>for i, row in df.iterrows()\<close> of \<open>generate_reports\<close>, \<open>i\<close> counting from 0.
  \<open>sched\<close> lists, for each coming call of \<open>root.update()\<close>, the changes made during it.
\<close>

fun generate_loop ::
  "env \<Rightarrow> generator \<Rightarrow> pystr \<Rightarrow> nat \<Rightarrow> nat \<Rightarrow> row list \<Rightarrow> mutation list list \<Rightarrow> nat \<Rightarrow> state
     \<Rightarrow> nat \<times> state" where
  "generate_loop e gen csv_dir n_total i [] sched ok st = (ok, st)"
| "generate_loop e gen csv_dir n_total i (r # rows) sched ok st =
     (let name = py_strip (py_str (row_get r ''name'' (CStr [])));
          who = (if name = [] then py ''Patient_'' @ str_int (int i + 1) else name);
          st1 = root_update (concat (take 1 sched)) (st\<lparr>status := Generating (i + 1) n_total who\<rparr>)
      in case create_patient_report e gen r csv_dir (int i + 1) (py ''reports'') st1 of
           Inr (path, st2) \<Rightarrow>
             generate_loop e gen csv_dir n_total (i + 1) rows (drop 1 sched) (ok + 1) st2
         | Inl err \<Rightarrow>
             generate_loop e gen csv_dir n_total (i + 1) rows (drop 1 sched) ok
               (st1\<lparr>messages := messages st1 @
                       [Warning_Record (row_get r ''name'' (CStr (py ''Unknown''))) err]\<rparr>))"

text \<open>
  \<open>generate_reports\<close>.  \<open>pre\<close> are the changes made during the \<open>root.update()\<close> that
  precedes the construction of the generator; they leave the two paths as they are.
\<close>

definition generate_reports :: "env \<Rightarrow> mutation list \<Rightarrow> mutation list list \<Rightarrow> state \<Rightarrow> state" where
  "generate_reports e pre sched st =
     (case csv_path st of
        None \<Rightarrow> st\<lparr>messages := messages st @ [Error_SelectCsv]\<rparr>
      | Some cp \<Rightarrow>
          (case template_path st of
             None \<Rightarrow> st\<lparr>messages := messages st @ [Error_SelectTemplate]\<rparr>
           | Some tp \<Rightarrow>
               (let st1 = root_update pre (st\<lparr>status := ReadingCsv\<rparr>)
                in case read_csv (files st1) cp of
                     Inl err \<Rightarrow>
                       st1\<lparr>messages := messages st1 @ [Error_Occurred err],
                           status := ErrorDuringGeneration\<rparr>
                   | Inr df \<Rightarrow>
                       (let csv_dir = os_path_dirname e cp;
                            generator = ReportGenerator tp (field_coordinates st1);
                            n_total = length df;
                            (ok, st2) = generate_loop e generator csv_dir n_total 0 df sched 0 st1
                        in st2\<lparr>messages := messages st2 @
                                 [if ok = n_total then Info_All ok else Warning_Partial ok n_total],
                               status := Done ok n_total\<rparr>))))"

section \<open>Auxiliary predicates and an example world\<close>

text \<open>
  The exception, if any, that the first lines of \<open>create_patient_report\<close> raise on a
  template: opening it, taking its first page, reading the media box of that page.
\<close>

definition template_error :: "filesystem \<Rightarrow> pystr \<Rightarrow> error option" where
  "template_error fs tp =
     (case PdfReader fs tp of
        Inl err \<Rightarrow> Some err
      | Inr pages \<Rightarrow>
          (case first_page pages of
             Inl err \<Rightarrow> Some err
           | Inr p \<Rightarrow> (case page_size p of Inl err \<Rightarrow> Some err | Inr wh \<Rightarrow> None)))"

fun is_rebind :: "mutation \<Rightarrow> bool" where
  "is_rebind (Rebind m) = True"
| "is_rebind (SetItem k v) = False"
| "is_rebind (DelItem k) = False"

text \<open>
  The path of the report that \<open>create_patient_report\<close> writes for a record when called
  with the default output directory, as the driver calls it.
\<close>

definition report_path :: "env \<Rightarrow> row \<Rightarrow> pystr" where
  "report_path e r =
     os_path_join e (py ''reports'')
       (slugify (py_str (row_get r ''name'' (CStr []))) @ py ''_report.pdf'')"

text \<open>
  The eight calls of \<open>draw_text\<close> that follow the one for \<open>bed_id\<close> in
  \<open>_draw_text_fields\<close>, on an empty canvas.
\<close>

definition other_text_fields :: "coords \<Rightarrow> row \<Rightarrow> real \<Rightarrow> real \<Rightarrow> draw_op list" where
  "other_text_fields fc patient_data page_width page_height =
     foldl (draw_text fc page_width page_height) []
       [(''name'', row_get patient_data ''name'' (CStr [])),
        (''age'', row_get patient_data ''age'' (CStr [])),
        (''gender'', row_get patient_data ''gender'' (CStr [])),
        (''attendees'', row_get patient_data ''attendees'' (CStr [])),
        (''date_of_diagnosis'', row_get patient_data ''date_of_diagnosis'' (CStr [])),
        (''cancer_type'', row_get patient_data ''cancer_type'' (CStr [])),
        (''cancer_stage'', row_get patient_data ''cancer_stage'' (CStr [])),
        (''cancer_grade'', row_get patient_data ''cancer_grade'' (CStr []))]"

text \<open>
  A small POSIX world for concrete runs: paths are joined with a slash and are already
  normal, the directory of a path is what precedes its last slash, every output file
  can be written.
\<close>

definition demo_env :: env where
  "demo_env =
     \<lparr>os_path_join = (\<lambda>a b. a @ 47 # b),
      os_path_normpath = (\<lambda>p. p),
      os_path_dirname = (\<lambda>p. rev (drop 1 (dropWhile (\<lambda>c. c \<noteq> 47) (rev p)))),
      can_write = (\<lambda>p. True),
      now = py ''2024-05-01 10:00:00'',
      image_error = (\<lambda>p. py ''cannot identify image file'')\<rparr>"

definition demo_coords :: coords where
  "demo_coords = [''bed_id'' \<mapsto> (220, 95), ''name'' \<mapsto> (230, 185), ''image'' \<mapsto> (375, 165)]"

definition demo_row :: "string \<Rightarrow> string \<Rightarrow> row" where
  "demo_row nm img = [''name'' \<mapsto> CStr (py nm), ''image_path'' \<mapsto> CStr (py img)]"

definition demo_page :: page where
  "demo_page = \<lparr>mediabox = Some (612, 792), content = []\<rparr>"

text \<open>
  The application after a template \<open>t.pdf\<close> and a table \<open>d/p.csv\<close> with the given rows
  were selected; the only image in the directory of the table is \<open>d/a.png\<close>, 400 by 200.
\<close>

definition demo_state :: "fs_entry \<Rightarrow> row list \<Rightarrow> state" where
  "demo_state template rows =
     \<lparr>csv_path = Some (py ''d/p.csv''),
      template_path = Some (py ''t.pdf''),
      field_coordinates = 0,
      heap = (\<lambda>a. if a = 0 then demo_coords else Map.empty),
      lim = 1,
      files = [py ''t.pdf'' \<mapsto> template, py ''d/p.csv'' \<mapsto> CsvFile rows,
               py ''d/a.png'' \<mapsto> ImageFile 400 200],
      messages = [],
      status = Ready\<rparr>"

section \<open>Properties of the slug\<close>

lemma slug_char_not_space: "slug_char c \<Longrightarrow> \<not> isspace c"
  by (auto simp: slug_char_def isspace_def)

lemma slug_char_not_blank: "slug_char c \<Longrightarrow> c \<noteq> 32"
  by (auto simp: slug_char_def)

lemma dropWhile_none: "list_all (\<lambda>x. \<not> P x) xs \<Longrightarrow> dropWhile P xs = xs"
  by (cases xs) auto

lemma py_strip_slug:
  assumes "list_all slug_char t"
  shows "py_strip t = t"
proof -
  from assms have n: "list_all (\<lambda>x. \<not> isspace x) t"
    by (simp add: list_all_iff slug_char_not_space)
  then have r: "list_all (\<lambda>x. \<not> isspace x) (rev t)"
    by (simp add: list_all_iff)
  show ?thesis
    by (simp add: py_strip_def dropWhile_none [OF n] dropWhile_none [OF r])
qed

lemma replace_space_slug: "list_all slug_char t \<Longrightarrow> replace_space t = t"
  by (induction t) (auto simp: replace_space_def slug_char_not_blank)

lemma filter_slug: "list_all slug_char t \<Longrightarrow> filter slug_char t = t"
  by (induction t) auto

lemma slugify_filename_fixed:
  "list_all slug_char t \<Longrightarrow> t \<noteq> [] \<Longrightarrow> slugify_filename t fb = t"
  by (simp add: slugify_filename_def py_strip_slug replace_space_slug filter_slug Let_def)

lemma report_slug: "list_all slug_char (py ''report'')" "py ''report'' \<noteq> []"
  by (simp_all add: py_def slug_char_def)

lemma slugify_range: "list_all slug_char (slugify s) \<and> slugify s \<noteq> []"
  using report_slug
  by (auto simp: slugify_def slugify_filename_def Let_def list_all_iff)

text \<open>
  C8.  The slug of \<open>"John Doe"\<close> is \<open>"John_Doe"\<close>; the empty string and \<open>"***"\<close> give
  the fallback \<open>"report"\<close>; \<open>"a/b\c"\<close> gives \<open>"abc"\<close>, with one backslash (code point 92)
  as the Python literal \<open>"a/b\\c"\<close> denotes, and with two as well.
\<close>

theorem slugify_vectors:
  "slugify (py ''John Doe'') = py ''John_Doe'' \<and>
   slugify [] = py ''report'' \<and>
   slugify (py ''***'') = py ''report'' \<and>
   slugify (py ''a/b'' @ [92] @ py ''c'') = py ''abc'' \<and>
   slugify (py ''a/b'' @ [92, 92] @ py ''c'') = py ''abc''"
  by (simp add: slugify_def slugify_filename_def py_def py_strip_def isspace_def
        replace_space_def slug_char_def)

text \<open>
  C10.  Slugification is idempotent: for every string \<open>s\<close>, the slug of the slug of \<open>s\<close> is
  the slug of \<open>s\<close>; the slug is never empty and consists of characters of
  \<open>[A-Za-z0-9_-]\<close> only (the fallback \<open>"report"\<close> included).
\<close>

theorem slugify_idempotent:
  "slugify (slugify s) = slugify s \<and> slugify s \<noteq> [] \<and> list_all slug_char (slugify s)"
  using slugify_range [of s] slugify_filename_fixed [of "slugify s" "py ''report''"]
  by (simp add: slugify_def)

section \<open>Properties of rounding\<close>

lemma py_round_cases: "py_round x = \<lfloor>x\<rfloor> \<or> py_round x = \<lfloor>x\<rfloor> + 1"
  by (simp add: py_round_def Let_def)

lemma py_round_of_int: "py_round (of_int n) = n"
  by (simp add: py_round_def)

lemma py_round_mono:
  assumes xy: "x \<le> y"
  shows "py_round x \<le> py_round y"
proof -
  have fl: "\<lfloor>x\<rfloor> \<le> \<lfloor>y\<rfloor>" using xy by (rule floor_mono)
  show ?thesis
  proof (cases "\<lfloor>x\<rfloor> = \<lfloor>y\<rfloor>")
    case True
    then have "x - of_int \<lfloor>x\<rfloor> \<le> y - of_int \<lfloor>y\<rfloor>" using xy by simp
    then show ?thesis using True by (auto simp: py_round_def Let_def)
  next
    case False
    then have "\<lfloor>x\<rfloor> + 1 \<le> \<lfloor>y\<rfloor>" using fl by linarith
    then show ?thesis using py_round_cases [of x] py_round_cases [of y] by linarith
  qed
qed

lemma py_round_half: "real_of_int (py_round x) \<le> x + 1 / 2"
  unfolding py_round_def Let_def by (auto; linarith)

lemma py_round_half_below: "x - 1 / 2 \<le> real_of_int (py_round x)"
  unfolding py_round_def Let_def by (auto; linarith)

lemma bit_length_bounds:
  "0 < n \<Longrightarrow> 2 ^ (bit_length n - 1) \<le> n \<and> n < 2 ^ bit_length n"
proof (induction n rule: bit_length.induct)
  case (1 n)
  show ?case
  proof (cases "n div 2 = 0")
    case True
    then have "n = 1" using "1.prems" by presburger
    then show ?thesis by (simp add: bit_length.simps)
  next
    case False
    then have ih: "2 ^ (bit_length (n div 2) - 1) \<le> n div 2" "n div 2 < 2 ^ bit_length (n div 2)"
      using "1.IH" "1.prems" by simp_all
    have pos: "0 < bit_length (n div 2)"
      using False by (subst bit_length.simps) simp
    have b: "bit_length n = Suc (bit_length (n div 2))"
      using "1.prems" by (subst bit_length.simps) simp
    have "2 ^ (bit_length n - 1) = 2 * 2 ^ (bit_length (n div 2) - 1)"
      using pos b by (cases "bit_length (n div 2)") simp_all
    also have "\<dots> \<le> 2 * (n div 2)" using ih(1) by simp
    also have "\<dots> \<le> n" by simp
    finally have lo: "2 ^ (bit_length n - 1) \<le> n" .
    have "n < 2 * (n div 2) + 2" by presburger
    also have "\<dots> \<le> 2 * 2 ^ bit_length (n div 2)" using ih(2) by simp
    finally have hi: "n < 2 ^ bit_length n" using b by simp
    show ?thesis using lo hi by simp
  qed
qed

lemma bit_length_le:
  assumes "n < 2 ^ m"
  shows "bit_length n \<le> m"
proof (cases "n = 0")
  case True
  then show ?thesis by (simp add: bit_length.simps)
next
  case False
  then have "2 ^ (bit_length n - 1) \<le> n" using bit_length_bounds [of n] by simp
  then have "(2::nat) ^ (bit_length n - 1) < 2 ^ m" using assms by linarith
  then have "bit_length n - 1 < m" by simp
  then show ?thesis by linarith
qed

lemma bit_length_ge:
  assumes "2 ^ m \<le> n"
  shows "m < bit_length n"
proof -
  have "0 < n" using assms by (metis zero_less_power zero_less_numeral less_le_trans)
  then have "n < 2 ^ bit_length n" using bit_length_bounds [of n] by simp
  then have "(2::nat) ^ m < 2 ^ bit_length n" using assms by linarith
  then show ?thesis by simp
qed

lemma bit_length_mono: "m \<le> n \<Longrightarrow> bit_length m \<le> bit_length n"
proof (cases "m = 0")
  case True
  then show ?thesis by (simp add: bit_length.simps)
next
  case False
  assume mn: "m \<le> n"
  have "m < 2 ^ bit_length n"
    using bit_length_bounds [of n] False mn by simp
  then show ?thesis by (rule bit_length_le)
qed

lemma two_powi_pos [simp]: "0 < (2::real) powi k"
  by (simp add: power_int_def)

lemma two_powi_add: "(2::real) powi (a + b) = 2 powi a * 2 powi b"
  by (simp add: power_int_add)

lemma two_powi_of_nat: "(2::real) powi int n = 2 ^ n"
  by (simp add: power_int_def)

lemma real_pow2: "real (2 ^ k) = 2 powi int k"
  by (simp add: two_powi_of_nat)

lemma two_powi_mono: "a \<le> b \<Longrightarrow> (2::real) powi a \<le> 2 powi b"
  by (rule power_int_increasing) simp_all

lemma nat_floor_ge: "real n \<le> t \<Longrightarrow> n \<le> nat \<lfloor>t\<rfloor>"
  by (rule le_nat_floor)

lemma nat_floor_less: "0 \<le> t \<Longrightarrow> t < real n \<Longrightarrow> nat \<lfloor>t\<rfloor> < n"
  by linarith

lemma scaled_floor_bounds:
  fixes x :: real
  assumes "2 powi e \<le> \<bar>x\<bar>" "\<bar>x\<bar> < 2 powi (e + 1)" "- int s \<le> e"
  shows "2 ^ nat (e + int s) \<le> nat \<lfloor>\<bar>x\<bar> * 2 ^ s\<rfloor>"
    and "nat \<lfloor>\<bar>x\<bar> * 2 ^ s\<rfloor> < 2 ^ nat (e + int s + 1)"
proof -
  have n1: "int (nat (e + int s)) = e + int s" using assms(3) by simp
  have n2: "int (nat (e + int s + 1)) = e + 1 + int s" using assms(3) by simp
  have "real (2 ^ nat (e + int s)) = 2 powi int (nat (e + int s))"
    by (rule real_pow2)
  also have "\<dots> = 2 powi e * 2 powi int s"
    unfolding n1 by (rule two_powi_add)
  also have "\<dots> \<le> \<bar>x\<bar> * 2 powi int s"
    using assms(1) by (intro mult_right_mono) simp_all
  finally have "real (2 ^ nat (e + int s)) \<le> \<bar>x\<bar> * 2 ^ s"
    by (simp only: two_powi_of_nat)
  then show "2 ^ nat (e + int s) \<le> nat \<lfloor>\<bar>x\<bar> * 2 ^ s\<rfloor>"
    by (rule nat_floor_ge)
  have "\<bar>x\<bar> * 2 powi int s < 2 powi (e + 1) * 2 powi int s"
    using assms(2) by (intro mult_strict_right_mono) simp_all
  also have "\<dots> = 2 powi int (nat (e + int s + 1))"
    unfolding n2 by (rule two_powi_add [symmetric])
  also have "\<dots> = real (2 ^ nat (e + int s + 1))"
    by (rule real_pow2 [symmetric])
  finally have "\<bar>x\<bar> * 2 ^ s < real (2 ^ nat (e + int s + 1))"
    by (simp only: two_powi_of_nat)
  moreover have "0 \<le> \<bar>x\<bar> * 2 ^ s" by simp
  ultimately show "nat \<lfloor>\<bar>x\<bar> * 2 ^ s\<rfloor> < 2 ^ nat (e + int s + 1)"
    by (intro nat_floor_less)
qed

lemma quantum_exp_binade:
  assumes "2 powi e \<le> \<bar>x\<bar>" "\<bar>x\<bar> < 2 powi (e + 1)" "- 1022 \<le> e"
  shows "quantum_exp x = e - 52"
proof -
  have m: "int min_exp = 1074" by (simp add: min_exp_def)
  have e: "- int min_exp \<le> e" using assms(3) m by simp
  note b = scaled_floor_bounds [OF assms(1,2) e]
  have "nat (e + int min_exp) < bit_length (nat \<lfloor>\<bar>x\<bar> * 2 ^ min_exp\<rfloor>)"
    using b(1) by (rule bit_length_ge)
  moreover have "bit_length (nat \<lfloor>\<bar>x\<bar> * 2 ^ min_exp\<rfloor>) \<le> nat (e + int min_exp + 1)"
    using b(2) by (rule bit_length_le)
  ultimately have "int (bit_length (nat \<lfloor>\<bar>x\<bar> * 2 ^ min_exp\<rfloor>)) = e + int min_exp + 1"
    using e by linarith
  then show ?thesis using assms(3) m by (simp add: quantum_exp_def)
qed

lemma to_double_binade:
  assumes "2 powi e \<le> \<bar>x\<bar>" "\<bar>x\<bar> < 2 powi (e + 1)" "- 1022 \<le> e"
  shows "to_double x = of_int (py_round (x / 2 powi (e - 52))) * 2 powi (e - 52)"
  by (simp add: to_double_def quantum_exp_binade [OF assms] Let_def)

lemma py_round_nonneg: "0 \<le> x \<Longrightarrow> 0 \<le> py_round x"
  using py_round_mono [of 0 x] py_round_of_int [of 0] by simp

lemma quantum_exp_lower: "- int min_exp \<le> quantum_exp x"
  by (simp add: quantum_exp_def)

lemma quantum_exp_mono:
  assumes "\<bar>x\<bar> \<le> \<bar>y\<bar>"
  shows "quantum_exp x \<le> quantum_exp y"
proof -
  have "\<bar>x\<bar> * 2 ^ min_exp \<le> \<bar>y\<bar> * 2 ^ min_exp"
    using assms by (intro mult_right_mono) simp_all
  then have "nat \<lfloor>\<bar>x\<bar> * 2 ^ min_exp\<rfloor> \<le> nat \<lfloor>\<bar>y\<bar> * 2 ^ min_exp\<rfloor>"
    by (intro nat_mono floor_mono)
  then have "bit_length (nat \<lfloor>\<bar>x\<bar> * 2 ^ min_exp\<rfloor>) \<le> bit_length (nat \<lfloor>\<bar>y\<bar> * 2 ^ min_exp\<rfloor>)"
    by (rule bit_length_mono)
  then show ?thesis unfolding quantum_exp_def by linarith
qed

lemma quantum_exp_le:
  fixes x :: real
  assumes "\<bar>x\<bar> < 2 powi (k + 53)" "- int min_exp \<le> k"
  shows "quantum_exp x \<le> k"
proof -
  have n: "int (nat (k + 53 + int min_exp)) = k + 53 + int min_exp" using assms(2) by simp
  have "\<bar>x\<bar> * 2 powi int min_exp < 2 powi (k + 53) * 2 powi int min_exp"
    using assms(1) by (intro mult_strict_right_mono) simp_all
  also have "\<dots> = 2 powi int (nat (k + 53 + int min_exp))"
    unfolding n by (rule two_powi_add [symmetric])
  also have "\<dots> = real (2 ^ nat (k + 53 + int min_exp))"
    by (rule real_pow2 [symmetric])
  finally have "\<bar>x\<bar> * 2 ^ min_exp < real (2 ^ nat (k + 53 + int min_exp))"
    by (simp only: two_powi_of_nat)
  moreover have "0 \<le> \<bar>x\<bar> * 2 ^ min_exp" by simp
  ultimately have "nat \<lfloor>\<bar>x\<bar> * 2 ^ min_exp\<rfloor> < 2 ^ nat (k + 53 + int min_exp)"
    by (intro nat_floor_less)
  then have "bit_length (nat \<lfloor>\<bar>x\<bar> * 2 ^ min_exp\<rfloor>) \<le> nat (k + 53 + int min_exp)"
    by (rule bit_length_le)
  then show ?thesis using assms(2) unfolding quantum_exp_def by linarith
qed

lemma mantissa_bound: "\<bar>x\<bar> < 2 powi (quantum_exp x + 53)"
proof -
  let ?N = "nat \<lfloor>\<bar>x\<bar> * 2 ^ min_exp\<rfloor>"
  let ?b = "bit_length ?N"
  have "?N < 2 ^ ?b"
  proof (cases "?N = 0")
    case True
    then show ?thesis by simp
  next
    case False
    then show ?thesis using bit_length_bounds [of ?N] by simp
  qed
  then have "real ?N + 1 \<le> real (2 ^ ?b)"
    by (metis Suc_leI of_nat_Suc of_nat_le_iff add.commute plus_1_eq_Suc)
  moreover have "\<bar>x\<bar> * 2 ^ min_exp < real ?N + 1" by linarith
  ultimately have "\<bar>x\<bar> * 2 ^ min_exp < real (2 ^ ?b)" by linarith
  then have "\<bar>x\<bar> * 2 powi int min_exp < 2 powi int ?b"
    by (simp only: real_pow2 two_powi_of_nat)
  moreover have "2 powi int ?b = 2 powi (int ?b - int min_exp) * (2::real) powi int min_exp"
    by (subst two_powi_add [symmetric]) (simp only: diff_add_cancel)
  ultimately have "\<bar>x\<bar> * 2 powi int min_exp < 2 powi (int ?b - int min_exp) * 2 powi int min_exp"
    by (simp only:)
  then have "\<bar>x\<bar> < 2 powi (int ?b - int min_exp)"
    by (simp only: mult_less_cancel_right_pos [OF two_powi_pos])
  also have "\<dots> \<le> 2 powi (quantum_exp x + 53)"
    by (intro two_powi_mono) (simp add: quantum_exp_def)
  finally show ?thesis .
qed

lemma two_pow53: "real_of_int (2 ^ 53) * 2 powi k = 2 powi (k + 53)"
proof -
  have a: "(2::real) powi (k + 53) = 2 powi k * 2 powi int 53" by (simp only: two_powi_add of_nat_numeral)
  have b: "(2::real) powi int 53 = real_of_int (2 ^ 53)" by (simp only: two_powi_of_nat of_int_power of_int_numeral)
  show ?thesis by (simp only: a b mult.commute)
qed

lemma to_double_representable:
  assumes x: "x = of_int j * 2 powi k" and j: "\<bar>j\<bar> < 2 ^ 53" and k: "- int min_exp \<le> k"
  shows "to_double x = x"
proof -
  define q where "q = quantum_exp x"
  have "\<bar>x\<bar> = real_of_int \<bar>j\<bar> * 2 powi k" by (simp add: x abs_mult)
  also have "\<dots> < real_of_int (2 ^ 53) * 2 powi k"
    using j by (intro mult_strict_right_mono) (simp_all only: of_int_less_iff two_powi_pos)
  also have "\<dots> = 2 powi (k + 53)" by (rule two_pow53)
  finally have "q \<le> k" unfolding q_def using k by (intro quantum_exp_le)
  then obtain d where d: "k = q + int d" by (metis zle_iff_zadd)
  have xq: "x = of_int (j * 2 ^ d) * 2 powi q"
  proof -
    have "x = of_int j * (2 powi q * 2 powi int d)"
      unfolding x d by (simp only: two_powi_add)
    also have "\<dots> = of_int (j * 2 ^ d) * 2 powi q"
      by (simp add: two_powi_of_nat)
    finally show ?thesis .
  qed
  have "x / 2 powi q = of_int (j * 2 ^ d) * 2 powi q / 2 powi q"
    by (subst xq) (rule refl)
  also have "\<dots> = of_int (j * 2 ^ d)" by simp
  finally have "py_round (x / 2 powi q) = j * 2 ^ d" by (simp only: py_round_of_int)
  then have "to_double x = of_int (j * 2 ^ d) * 2 powi q"
    by (simp add: to_double_def Let_def q_def)
  then show ?thesis using xq by simp
qed

lemma to_double_int:
  assumes "\<bar>j\<bar> < 2 ^ 53"
  shows "to_double (of_int j) = of_int j"
  using to_double_representable [of "of_int j" j 0] assms by simp

lemma to_double_numeral [simp]:
  "numeral n < (2::int) ^ 53 \<Longrightarrow> to_double (numeral n) = numeral n"
  using to_double_int [of "numeral n"] by simp

lemma to_double_zero [simp]: "to_double 0 = 0"
  using to_double_int [of 0] by simp

lemma to_double_one [simp]: "to_double 1 = 1"
  using to_double_int [of 1] by simp

lemma to_double_nonneg: "0 \<le> x \<Longrightarrow> 0 \<le> to_double x"
  by (simp add: to_double_def Let_def py_round_nonneg)

lemma double_form:
  assumes "is_double x"
  obtains m where "x = of_int m * 2 powi quantum_exp x" "\<bar>m\<bar> < 2 ^ 53"
proof -
  let ?q = "quantum_exp x"
  let ?m = "py_round (x / 2 powi ?q)"
  have x: "x = of_int ?m * 2 powi ?q"
    using assms by (simp add: is_double_def to_double_def Let_def)
  have "real_of_int \<bar>?m\<bar> * 2 powi ?q = \<bar>x\<bar>"
    by (subst (2) x) (simp add: abs_mult)
  also have "\<dots> < 2 powi (?q + 53)" by (rule mantissa_bound)
  also have "\<dots> = real_of_int (2 ^ 53) * 2 powi ?q"
    by (rule two_pow53 [symmetric])
  finally have "real_of_int \<bar>?m\<bar> < real_of_int (2 ^ 53)"
    by (simp only: mult_less_cancel_right_pos [OF two_powi_pos])
  then have "\<bar>?m\<bar> < 2 ^ 53" by (simp only: of_int_less_iff)
  with x show ?thesis by (rule that)
qed

lemma to_double_le:
  assumes "x \<le> b" "\<bar>x\<bar> \<le> \<bar>b\<bar>" "is_double b"
  shows "to_double x \<le> b"
proof -
  let ?q = "quantum_exp x"
  from assms(3) obtain m where b: "b = of_int m * 2 powi quantum_exp b" by (rule double_form)
  have "?q \<le> quantum_exp b" using assms(2) by (rule quantum_exp_mono)
  then obtain d where d: "quantum_exp b = ?q + int d" by (metis zle_iff_zadd)
  have bq: "b / 2 powi ?q = of_int (m * 2 ^ d)"
    by (subst b) (simp add: d two_powi_add two_powi_of_nat)
  have "x / 2 powi ?q \<le> b / 2 powi ?q"
    using assms(1) by (intro divide_right_mono) simp_all
  then have "py_round (x / 2 powi ?q) \<le> py_round (b / 2 powi ?q)" by (rule py_round_mono)
  then have "py_round (x / 2 powi ?q) \<le> m * 2 ^ d" by (simp only: bq py_round_of_int)
  then have "real_of_int (py_round (x / 2 powi ?q)) \<le> b / 2 powi ?q"
    by (simp only: bq of_int_le_iff)
  then have "real_of_int (py_round (x / 2 powi ?q)) * 2 powi ?q \<le> b"
    by (simp add: pos_le_divide_eq)
  then show ?thesis by (simp add: to_double_def Let_def)
qed

lemma to_double_error:
  assumes "2 powi (- 1022) \<le> \<bar>x\<bar>"
  shows "\<bar>to_double x - x\<bar> \<le> \<bar>x\<bar> / 2 ^ 53"
proof -
  let ?q = "quantum_exp x"
  let ?N = "nat \<lfloor>\<bar>x\<bar> * 2 ^ min_exp\<rfloor>"
  let ?t = "x / 2 powi ?q"
  have m: "int min_exp = 1074" by (simp add: min_exp_def)
  have lo: "2 powi (?q + 52) \<le> \<bar>x\<bar>"
  proof (cases "?q = - int min_exp")
    case True
    then have e: "?q + 52 = - 1022" using m by linarith
    show ?thesis unfolding e by (rule assms)
  next
    case False
    then have q: "?q = int (bit_length ?N) - int min_exp - 53"
      by (simp add: quantum_exp_def max_def split: if_splits)
    have pos: "0 < bit_length ?N"
      using False q quantum_exp_lower [of x] by linarith
    then have "?N \<noteq> 0" by (auto simp: bit_length.simps)
    then have "2 ^ (bit_length ?N - 1) \<le> ?N" using bit_length_bounds [of ?N] by simp
    then have "real (2 ^ (bit_length ?N - 1)) \<le> real ?N" by (simp only: of_nat_le_iff)
    also have "\<dots> \<le> \<bar>x\<bar> * 2 ^ min_exp" by simp
    finally have "2 powi int (bit_length ?N - 1) \<le> \<bar>x\<bar> * 2 powi int min_exp"
      by (simp only: real_pow2 two_powi_of_nat)
    moreover have "int (bit_length ?N - 1) = (?q + 52) + int min_exp"
      using pos q by linarith
    ultimately have "2 powi (?q + 52) * 2 powi int min_exp \<le> \<bar>x\<bar> * 2 powi int min_exp"
      by (simp only: two_powi_add)
    then show ?thesis by (simp only: mult_le_cancel_right_pos [OF two_powi_pos])
  qed
  have "\<bar>real_of_int (py_round ?t) - ?t\<bar> \<le> 1 / 2"
    using py_round_half [of ?t] py_round_half_below [of ?t] by linarith
  then have "\<bar>real_of_int (py_round ?t) - ?t\<bar> * 2 powi ?q \<le> 1 / 2 * 2 powi ?q"
    by (intro mult_right_mono) simp_all
  moreover have "\<bar>real_of_int (py_round ?t) - ?t\<bar> * 2 powi ?q = \<bar>to_double x - x\<bar>"
  proof -
    have "to_double x - x = (real_of_int (py_round ?t) - ?t) * 2 powi ?q"
      by (simp add: to_double_def Let_def algebra_simps)
    then show ?thesis by (simp add: abs_mult)
  qed
  moreover have "1 / 2 * (2::real) powi ?q = 2 powi (?q + 52) / 2 ^ 53"
  proof -
    have a: "(2::real) powi (?q + 52) = 2 powi ?q * 2 powi int 52"
      by (simp only: two_powi_add of_nat_numeral)
    have b: "(2::real) powi int 52 = 2 ^ 52" by (rule two_powi_of_nat)
    have c: "(2::real) ^ 53 = 2 * 2 ^ 52" by simp
    show ?thesis unfolding a b c by simp
  qed
  ultimately have "\<bar>to_double x - x\<bar> \<le> 2 powi (?q + 52) / 2 ^ 53" by simp
  also have "\<dots> \<le> \<bar>x\<bar> / 2 ^ 53" using lo by (intro divide_right_mono) simp_all
  finally show ?thesis .
qed

lemma py_round_le_whole:
  assumes "x \<le> W" "W \<in> \<int>"
  shows "real_of_int (py_round x) \<le> W"
proof -
  from assms(2) obtain n where n: "W = of_int n" by (auto elim: Ints_cases)
  have "py_round x \<le> py_round (of_int n)" using assms(1) n by (intro py_round_mono) simp
  then show ?thesis using n by (simp add: py_round_of_int)
qed

section \<open>Properties of the coordinate functions\<close>

lemma quantum_multiple_representable:
  assumes H: "is_double H" "0 < H"
    and y: "y = of_int n * 2 powi quantum_exp H" "0 \<le> y" "y \<le> H"
  shows "to_double y = y" "to_double (H - y) = H - y"
proof -
  define q where "q = quantum_exp H"
  from H(1) obtain m where m: "H = of_int m * 2 powi q" "\<bar>m\<bar> < 2 ^ 53"
    unfolding q_def by (rule double_form)
  have yq: "y = of_int n * 2 powi q" using y(1) by (simp add: q_def)
  have k: "- int min_exp \<le> q" unfolding q_def by (rule quantum_exp_lower)
  have "0 \<le> real_of_int n * 2 powi q" using y(2) yq by simp
  then have n0: "0 \<le> n"
    using two_powi_pos [of q] by (auto simp: zero_le_mult_iff)
  have "real_of_int n * 2 powi q \<le> real_of_int m * 2 powi q" using y(3) yq m(1) by simp
  then have nm: "n \<le> m" by simp
  have "\<bar>n\<bar> < 2 ^ 53" using n0 nm m(2) by linarith
  then show "to_double y = y" using yq k by (intro to_double_representable [of y n q])
  have d: "H - y = of_int (m - n) * 2 powi q"
    by (simp add: m(1) yq algebra_simps)
  have "\<bar>m - n\<bar> < 2 ^ 53" using n0 nm m(2) by linarith
  then show "to_double (H - y) = H - y" using d k by (intro to_double_representable [of "H - y" "m - n" q])
qed

lemma whole_is_quantum_multiple:
  fixes H y :: real
  assumes "y \<in> \<int>" "\<bar>H\<bar> < 2 ^ 53"
  shows "\<exists>n. y = of_int n * 2 powi quantum_exp H"
proof -
  define q where "q = quantum_exp H"
  have "(2::real) ^ 53 = 2 powi (0 + 53)" by (simp only: add_0 two_powi_of_nat [symmetric] of_nat_numeral)
  then have "\<bar>H\<bar> < 2 powi (0 + 53)" using assms(2) by simp
  then have "q \<le> 0" unfolding q_def by (intro quantum_exp_le) simp_all
  then obtain d where d: "q = - int d" by (metis nonpos_int_cases)
  from assms(1) obtain z where z: "y = of_int z" by (auto elim: Ints_cases)
  have "(2::real) powi int d * 2 powi q = 1"
    unfolding d by (simp only: two_powi_add [symmetric]) simp
  then have "y = of_int (z * 2 ^ d) * 2 powi q"
    by (simp add: z two_powi_of_nat mult.assoc)
  then show ?thesis unfolding q_def by blast
qed

lemma is_double_one: "is_double 1"
  by (simp add: is_double_def)

lemma is_double_numeral: "numeral n < (2::int) ^ 53 \<Longrightarrow> is_double (numeral n)"
  by (simp add: is_double_def)

lemma double_tenth: "to_double (1 / 10) = 3602879701896397 / 36028797018963968"
  by (subst to_double_binade [of "- 4"]) (simp_all add: py_round_def)

lemma is_double_tenth: "is_double (3602879701896397 / 36028797018963968)"
  unfolding is_double_def
  by (subst to_double_binade [of "- 4"]) (simp_all add: py_round_def)

lemma is_double_big: "is_double 9007199254740994"
  unfolding is_double_def
  by (subst to_double_binade [of 53]) (simp_all add: py_round_def)

lemma flip_tenth: "to_pdf_y (3602879701896397 / 36028797018963968) 792 = 6965626064286515 / 8796093022208"
  unfolding to_pdf_y_def float_sub_def
  by (subst to_double_binade [of 9]) (simp_all add: py_round_def)

lemma flip_flip_tenth:
  "to_pdf_y (6965626064286515 / 8796093022208) 792 = 879609302221 / 8796093022208"
  unfolding to_pdf_y_def float_sub_def
  by (subst to_double_binade [of "- 4"]) (simp_all add: py_round_def)

lemma flip_big: "to_pdf_y 1 9007199254740994 = 9007199254740992"
  unfolding to_pdf_y_def float_sub_def
  by (subst to_double_binade [of 53]) (simp_all add: py_round_def)

lemma flip_flip_big: "to_pdf_y 9007199254740992 9007199254740994 = 2"
  by (simp add: to_pdf_y_def float_sub_def)

text \<open>
  C6, as the code has it.  \<open>to_pdf_y\<close> subtracts floats, and a float subtraction rounds.
  For every float page height \<open>H > 0\<close> and every \<open>y\<close> with \<open>0 \<le> y \<le> H\<close> that is an integer
  multiple of the quantum of \<open>H\<close> (in particular every whole number \<open>y\<close> when \<open>H < 2^53\<close>),
  both subtractions are exact: \<open>to_pdf_y y H = H - y\<close> and
  \<open>to_pdf_y (to_pdf_y y H) H = y\<close>.
\<close>

theorem to_pdf_y_flip_flip:
  assumes "is_double H" "0 < H" "0 \<le> y" "y \<le> H"
    and "(\<exists>n. y = of_int n * 2 powi quantum_exp H) \<or> (y \<in> \<int> \<and> H < 2 ^ 53)"
  shows "to_pdf_y y H = H - y \<and> to_pdf_y (to_pdf_y y H) H = y"
proof -
  from assms(5) obtain n where n: "y = of_int n * 2 powi quantum_exp H"
    using whole_is_quantum_multiple [of y H] assms(2) by auto
  note r = quantum_multiple_representable [OF assms(1,2) n assms(3,4)]
  have a: "to_pdf_y y H = H - y"
    using r(2) assms(3,4) by (simp add: to_pdf_y_def float_sub_def)
  have "to_pdf_y (H - y) H = y"
    using r(1) assms(3,4) by (simp add: to_pdf_y_def float_sub_def)
  with a show ?thesis by simp
qed

text \<open>The bed number position of the default layout on a page 792 points high.\<close>

theorem to_pdf_y_flip_flip_witness:
  "is_double 792 \<and> (0::real) < 792 \<and> (0::real) \<le> 95 \<and> (95::real) \<le> 792 \<and>
   (95::real) \<in> \<int> \<and> (792::real) < 2 ^ 53 \<and>
   to_pdf_y 95 792 = 697 \<and> to_pdf_y (to_pdf_y 95 792) 792 = 95"
  using to_pdf_y_flip_flip [of 792 95]
  by (simp add: is_double_numeral to_pdf_y_def float_sub_def)

text \<open>
  C6 as stated fails on floats.  For the double nearest to 0.1 and \<open>H = 792\<close> the round
  trip gives 0.10000000000002274, that is \<open>879609302221 / 2^43\<close>; for \<open>y = 1\<close> and
  \<open>H = 2^53 + 2\<close> it gives 2.
\<close>

theorem to_pdf_y_flip_flip_rounds:
  "is_double 792 \<and> is_double (3602879701896397 / 36028797018963968) \<and>
   to_double (1 / 10) = 3602879701896397 / 36028797018963968 \<and>
   (0::real) \<le> 3602879701896397 / 36028797018963968 \<and>
   (3602879701896397 / 36028797018963968 :: real) \<le> 792 \<and>
   to_pdf_y (to_pdf_y (3602879701896397 / 36028797018963968) 792) 792
     = 879609302221 / 8796093022208 \<and>
   to_pdf_y (to_pdf_y (3602879701896397 / 36028797018963968) 792) 792
     \<noteq> 3602879701896397 / 36028797018963968 \<and>
   is_double 9007199254740994 \<and> is_double 1 \<and>
   to_pdf_y (to_pdf_y 1 9007199254740994) 9007199254740994 = 2"
  by (simp add: flip_tenth flip_flip_tenth flip_big flip_flip_big is_double_tenth is_double_big
      double_tenth is_double_numeral is_double_one)

lemma ratio_scaled:
  fixes r W :: real
  assumes "0 \<le> r" "r \<le> 1" "0 < W"
  shows "0 \<le> r * W" "r * W \<le> W"
  using assms by (simp_all add: mult_left_le_one_le)

text \<open>
  C3, as the code has it.  For every ratio pair in \<open>[0,1] \<times> [0,1]\<close> and every page size
  \<open>W > 0\<close>, \<open>H > 0\<close>, the converted coordinates satisfy \<open>0 \<le> x \<le> round W\<close> and
  \<open>0 \<le> y \<le> round H\<close>, so they exceed the page by at most half a point; \<open>x \<le> W\<close> holds
  when \<open>W\<close> is a whole number, and \<open>y \<le> H\<close> when \<open>H\<close> is.
\<close>

theorem ratio_to_points_bounds:
  assumes "0 \<le> rx" "rx \<le> 1" "0 \<le> ry" "ry \<le> 1" "0 < W" "0 < H"
  shows "0 \<le> fst (ratio_to_points rx ry W H) \<and> 0 \<le> snd (ratio_to_points rx ry W H) \<and>
         fst (ratio_to_points rx ry W H) \<le> py_round W \<and>
         snd (ratio_to_points rx ry W H) \<le> py_round H \<and>
         real_of_int (fst (ratio_to_points rx ry W H)) \<le> W + 1 / 2 \<and>
         real_of_int (snd (ratio_to_points rx ry W H)) \<le> H + 1 / 2 \<and>
         (W \<in> \<int> \<longrightarrow> real_of_int (fst (ratio_to_points rx ry W H)) \<le> W) \<and>
         (H \<in> \<int> \<longrightarrow> real_of_int (snd (ratio_to_points rx ry W H)) \<le> H)"
proof -
  have x: "0 \<le> rx * W" "rx * W \<le> W" using assms by (auto intro: ratio_scaled)
  have y: "0 \<le> ry * H" "ry * H \<le> H" using assms by (auto intro: ratio_scaled)
  have hx: "real_of_int (py_round (rx * W)) \<le> W + 1 / 2"
    using py_round_half [of "rx * W"] x(2) by linarith
  have hy: "real_of_int (py_round (ry * H)) \<le> H + 1 / 2"
    using py_round_half [of "ry * H"] y(2) by linarith
  show ?thesis
    using x y hx hy
    by (simp add: ratio_to_points_def py_round_nonneg py_round_mono py_round_le_whole)
qed

text \<open>The bounds at the ratio pair \<open>(1/2, 1/2)\<close> on a Letter page, whose sizes are whole.\<close>

theorem ratio_to_points_bounds_witness:
  "(0::real) \<le> 1 / 2 \<and> (1 / 2::real) \<le> 1 \<and> (0::real) < 612 \<and> (0::real) < 792 \<and>
   (612::real) \<in> \<int> \<and> (792::real) \<in> \<int> \<and>
   ratio_to_points (1 / 2) (1 / 2) 612 792 = (306, 396) \<and>
   fst (ratio_to_points (1 / 2) (1 / 2) 612 792) \<le> py_round 612 \<and>
   real_of_int (fst (ratio_to_points (1 / 2) (1 / 2) 612 792)) \<le> 612 \<and>
   real_of_int (snd (ratio_to_points (1 / 2) (1 / 2) 612 792)) \<le> 792"
  using ratio_to_points_bounds [of "1 / 2" "1 / 2" 612 792]
  by (simp add: ratio_to_points_def py_round_def)

text \<open>
  C3 as stated fails.  On a page of 0.9 by 0.9 points the built-in ratio of the image
  field gives \<open>x = 1 > 0.9\<close>; and on an A4 page (595.276 by 841.89 points) the ratio pair
  \<open>(1, 1)\<close> gives \<open>y = 842 > 841.89\<close>.
\<close>

theorem ratio_to_points_exceeds_page:
  "(''image'', 664893617 / 1000000000, 208070618 / 1000000000) \<in> set ratios \<and>
   map_of (mosabbir_default_coords (9 / 10) (9 / 10)) ''image'' = Some (1, 0) \<and>
   \<not> real_of_int (fst (ratio_to_points (664893617 / 1000000000) (208070618 / 1000000000)
                        (9 / 10) (9 / 10))) \<le> 9 / 10 \<and>
   ratio_to_points 1 1 (595276 / 1000) (84189 / 100) = (595, 842) \<and>
   \<not> real_of_int (snd (ratio_to_points 1 1 (595276 / 1000) (84189 / 100))) \<le> 84189 / 100"
  by (simp add: ratios_def mosabbir_default_coords_def ratio_to_points_def py_round_def)

section \<open>Running the batch driver\<close>

lemmas run_defs =
  generate_reports_def create_patient_report_def overlay_def draw_text_fields_def
  draw_text_def draw_patient_image_def draw_image_placeholder_def add_timestamp_def
  merge_page_def PdfReader_def first_page_def page_size_def read_csv_def
  ReportGenerator_def root_update_def row_get_def Image_open_size_def drawImage_error_def
  float_sub_def to_pdf_y_def slugify_def slugify_filename_def py_strip_def isspace_def
  replace_space_def slug_char_def format_02d_def str_int_def py_def Let_def
  demo_env_def demo_coords_def demo_row_def demo_page_def demo_state_def

lemma apply_mutation_keeps [simp]:
  "files (apply_mutation st m) = files st"
  "messages (apply_mutation st m) = messages st"
  "status (apply_mutation st m) = status st"
  "csv_path (apply_mutation st m) = csv_path st"
  "template_path (apply_mutation st m) = template_path st"
  by (cases m; simp)+

lemma root_update_keeps [simp]:
  "files (root_update evs st) = files st"
  "messages (root_update evs st) = messages st"
  "status (root_update evs st) = status st"
  "csv_path (root_update evs st) = csv_path st"
  "template_path (root_update evs st) = template_path st"
  unfolding root_update_def by (induction evs arbitrary: st; simp)+

lemma create_template_error:
  assumes "template_error (files st) (gen_template_path gen) = Some err"
  shows "create_patient_report e gen r csv_dir n out st = Inl err"
  using assms
  by (auto simp: create_patient_report_def template_error_def Let_def split: sum.splits)

lemma generate_loop_template_error:
  assumes "template_error (files st) (gen_template_path gen) = Some err"
  shows "\<exists>st'. generate_loop e gen csv_dir nt i rows sched ok st = (ok, st') \<and>
           files st' = files st \<and>
           messages st' = messages st @
             map (\<lambda>r. Warning_Record (row_get r ''name'' (CStr (py ''Unknown''))) err) rows"
  using assms
proof (induction rows arbitrary: i sched ok st)
  case Nil
  then show ?case by simp
next
  case (Cons r rows)
  let ?who = "(if py_strip (py_str (row_get r ''name'' (CStr []))) = []
               then py ''Patient_'' @ str_int (int i + 1)
               else py_strip (py_str (row_get r ''name'' (CStr []))))"
  let ?st1 = "root_update (concat (take 1 sched)) (st\<lparr>status := Generating (i + 1) nt ?who\<rparr>)"
  let ?st2 = "?st1\<lparr>messages := messages ?st1 @
                 [Warning_Record (row_get r ''name'' (CStr (py ''Unknown''))) err]\<rparr>"
  have f1: "template_error (files ?st1) (gen_template_path gen) = Some err"
    using Cons.prems by simp
  have f2: "template_error (files ?st2) (gen_template_path gen) = Some err"
    using Cons.prems by simp
  have step: "generate_loop e gen csv_dir nt i (r # rows) sched ok st =
              generate_loop e gen csv_dir nt (i + 1) rows (drop 1 sched) ok ?st2"
    using create_template_error [OF f1] by (simp add: Let_def)
  from Cons.IH [OF f2, of "i + 1" "drop 1 sched" ok]
  obtain st' where
    "generate_loop e gen csv_dir nt (i + 1) rows (drop 1 sched) ok ?st2 = (ok, st')"
    "files st' = files ?st2"
    "messages st' = messages ?st2 @
       map (\<lambda>r. Warning_Record (row_get r ''name'' (CStr (py ''Unknown''))) err) rows"
    by blast
  then show ?case using step by simp
qed

lemma generate_reports_template_error:
  assumes "csv_path st = Some cp" "template_path st = Some tp"
    and "files st cp = Some (CsvFile rows)"
    and "template_error (files st) tp = Some err"
  shows "status (generate_reports e pre sched st) = Done 0 (length rows) \<and>
         files (generate_reports e pre sched st) = files st \<and>
         messages (generate_reports e pre sched st) =
           messages st @
           map (\<lambda>r. Warning_Record (row_get r ''name'' (CStr (py ''Unknown''))) err) rows @
           [if rows = [] then Info_All 0 else Warning_Partial 0 (length rows)]"
proof -
  let ?st1 = "root_update pre (st\<lparr>status := ReadingCsv\<rparr>)"
  let ?gen = "ReportGenerator tp (field_coordinates ?st1)"
  have un: "template_error (files ?st1) (gen_template_path ?gen) = Some err"
    using assms(4) by (simp add: ReportGenerator_def)
  from generate_loop_template_error [OF un, of e "os_path_dirname e cp" "length rows" 0 rows sched 0]
  obtain st' where loop:
    "generate_loop e ?gen (os_path_dirname e cp) (length rows) 0 rows sched 0 ?st1 = (0, st')"
    "files st' = files ?st1"
    "messages st' = messages ?st1 @
       map (\<lambda>r. Warning_Record (row_get r ''name'' (CStr (py ''Unknown''))) err) rows"
    by blast
  have csv: "read_csv (files ?st1) cp = Inr rows"
    using assms(3) by (simp add: read_csv_def)
  show ?thesis
    using assms(1,2) csv loop by (simp add: generate_reports_def Let_def)
qed

lemma template_ok_cases:
  assumes "template_error fs tp = None"
  obtains pg pgs pw ph where "fs tp = Some (PdfFile (pg # pgs))" "mediabox pg = Some (pw, ph)"
  using assms
  by (auto simp: template_error_def PdfReader_def first_page_def page_size_def
      split: option.splits fs_entry.splits list.splits sum.splits)

lemma template_ok_intro:
  assumes "fs tp = Some (PdfFile (pg # pgs))" "mediabox pg = Some wh"
  shows "template_error fs tp = None"
  using assms by (simp add: template_error_def PdfReader_def first_page_def page_size_def)

lemma create_success:
  assumes "files st (gen_template_path gen) = Some (PdfFile (pg # pgs))"
    and "mediabox pg = Some (pw, ph)"
    and "can_write e (os_path_join e out
           (slugify (py_str (row_get r ''name'' (CStr []))) @ py ''_report.pdf''))"
  shows "create_patient_report e gen r csv_dir n out st =
           Inr (os_path_join e out
                  (slugify (py_str (row_get r ''name'' (CStr []))) @ py ''_report.pdf''),
                st\<lparr>files := (files st)
                   (os_path_join e out
                      (slugify (py_str (row_get r ''name'' (CStr []))) @ py ''_report.pdf'') \<mapsto>
                    PdfFile [pg\<lparr>content := content pg @
                       overlay e (files st) (heap st (gen_field_coordinates gen))
                         r csv_dir n pw ph\<rparr>])\<rparr>)"
  using assms
  by (simp add: create_patient_report_def PdfReader_def first_page_def page_size_def
      merge_page_def Let_def)

lemma create_keeps_template:
  assumes "template_error (files st) (gen_template_path gen) = None"
    and "\<forall>p. can_write e p"
  shows "\<exists>p st'. create_patient_report e gen r csv_dir n out st = Inr (p, st') \<and>
           template_error (files st') (gen_template_path gen) = None \<and>
           messages st' = messages st"
proof -
  from assms(1) obtain pg pgs pw ph where
    t: "files st (gen_template_path gen) = Some (PdfFile (pg # pgs))" "mediabox pg = Some (pw, ph)"
    by (rule template_ok_cases)
  have w: "can_write e (os_path_join e out
           (slugify (py_str (row_get r ''name'' (CStr []))) @ py ''_report.pdf''))"
    using assms(2) by simp
  show ?thesis
    unfolding create_success [OF t w]
    using t by (simp add: template_error_def PdfReader_def first_page_def page_size_def)
qed

lemma generate_loop_all_succeed:
  assumes "template_error (files st) (gen_template_path gen) = None"
    and "\<forall>p. can_write e p"
  shows "\<exists>st'. generate_loop e gen csv_dir nt i rows sched ok st = (ok + length rows, st') \<and>
           messages st' = messages st"
  using assms(1)
proof (induction rows arbitrary: i sched ok st)
  case Nil
  then show ?case by simp
next
  case (Cons r rows)
  let ?who = "(if py_strip (py_str (row_get r ''name'' (CStr []))) = []
               then py ''Patient_'' @ str_int (int i + 1)
               else py_strip (py_str (row_get r ''name'' (CStr []))))"
  let ?st1 = "root_update (concat (take 1 sched)) (st\<lparr>status := Generating (i + 1) nt ?who\<rparr>)"
  have f1: "template_error (files ?st1) (gen_template_path gen) = None"
    using Cons.prems by simp
  from create_keeps_template [OF f1 assms(2), of r csv_dir "int i + 1" "py ''reports''"]
  obtain p st2 where c:
    "create_patient_report e gen r csv_dir (int i + 1) (py ''reports'') ?st1 = Inr (p, st2)"
    "template_error (files st2) (gen_template_path gen) = None"
    "messages st2 = messages ?st1"
    by blast
  have step: "generate_loop e gen csv_dir nt i (r # rows) sched ok st =
              generate_loop e gen csv_dir nt (i + 1) rows (drop 1 sched) (ok + 1) st2"
    using c(1) by (simp add: Let_def)
  from Cons.IH [OF c(2), of "i + 1" "drop 1 sched" "ok + 1"]
  obtain st' where
    "generate_loop e gen csv_dir nt (i + 1) rows (drop 1 sched) (ok + 1) st2 =
       (ok + 1 + length rows, st')"
    "messages st' = messages st2"
    by blast
  then show ?case using step c(3) by simp
qed

lemma generate_reports_all_succeed:
  assumes "csv_path st = Some cp" "template_path st = Some tp"
    and "files st cp = Some (CsvFile rows)"
    and "template_error (files st) tp = None"
    and "\<forall>p. can_write e p"
  shows "status (generate_reports e pre sched st) = Done (length rows) (length rows) \<and>
         messages (generate_reports e pre sched st) = messages st @ [Info_All (length rows)]"
proof -
  let ?st1 = "root_update pre (st\<lparr>status := ReadingCsv\<rparr>)"
  let ?gen = "ReportGenerator tp (field_coordinates ?st1)"
  have ok: "template_error (files ?st1) (gen_template_path ?gen) = None"
    using assms(4) by (simp add: ReportGenerator_def)
  from generate_loop_all_succeed [OF ok assms(5), of "os_path_dirname e cp" "length rows" 0 rows sched 0]
  obtain st' where loop:
    "generate_loop e ?gen (os_path_dirname e cp) (length rows) 0 rows sched 0 ?st1 =
       (length rows, st')"
    "messages st' = messages ?st1"
    by auto
  have csv: "read_csv (files ?st1) cp = Inr rows"
    using assms(3) by (simp add: read_csv_def)
  show ?thesis
    using assms(1,2) csv loop by (simp add: generate_reports_def Let_def)
qed

section \<open>Failure of the template\<close>

text \<open>
  C1, as the code has it.  The template is opened inside \<open>create_patient_report\<close>, once
  per record and inside the \<open>try\<close> of the loop.  With a template that fails to open, for
  every list of records and whatever happens during \<open>root.update()\<close>: the driver ends with
  0 successes out of \<open>len(records)\<close>, every record is attempted and gets its own warning,
  no file is written, and no operation-level error is raised (the run ends with the
  summary message).
\<close>

theorem unopenable_template_fails_each_record:
  assumes "csv_path st = Some cp" "template_path st = Some tp"
    and "files st cp = Some (CsvFile rows)"
    and "PdfReader (files st) tp = Inl PdfReadError"
  shows "status (generate_reports e pre sched st) = Done 0 (length rows) \<and>
         files (generate_reports e pre sched st) = files st \<and>
         messages (generate_reports e pre sched st) =
           messages st @
           map (\<lambda>r. Warning_Record (row_get r ''name'' (CStr (py ''Unknown''))) PdfReadError) rows @
           [if rows = [] then Info_All 0 else Warning_Partial 0 (length rows)]"
proof -
  have "template_error (files st) tp = Some PdfReadError"
    using assms(4) by (simp add: template_error_def)
  from generate_reports_template_error [OF assms(1-3) this] show ?thesis .
qed

text \<open>The statement above on a run with one record and a template that is not a PDF.\<close>

theorem unopenable_template_fails_each_record_witness:
  "status (generate_reports demo_env [] [] (demo_state OtherFile [demo_row ''John Doe'' ''a.png''])) = Done 0 1"
  using unopenable_template_fails_each_record [of "demo_state OtherFile [demo_row ''John Doe'' ''a.png'']"
      "py ''d/p.csv''" "py ''t.pdf''" "[demo_row ''John Doe'' ''a.png'']" demo_env "[]" "[]"]
  by (simp add: demo_state_def PdfReader_def py_def)

text \<open>
  C1 as stated fails: with a template that does not open and two records, both records
  are attempted (one warning each) and the run ends with the summary "0/2", not with an
  operation-level error.
\<close>

theorem unopenable_template_attempts_records:
  "PdfReader (files (demo_state OtherFile [demo_row ''John Doe'' ''a.png'', demo_row ''B'' ''a.png''])) (py ''t.pdf'') = Inl PdfReadError \<and>
   status (generate_reports demo_env [] [] (demo_state OtherFile [demo_row ''John Doe'' ''a.png'', demo_row ''B'' ''a.png''])) = Done 0 2 \<and>
   messages (generate_reports demo_env [] [] (demo_state OtherFile [demo_row ''John Doe'' ''a.png'', demo_row ''B'' ''a.png''])) =
     [Warning_Record (CStr (py ''John Doe'')) PdfReadError,
      Warning_Record (CStr (py ''B'')) PdfReadError, Warning_Partial 0 2]"
  by (simp add: run_defs dec.simps)

text \<open>
  C4, as the code has it.  When the template opens but the media box of its first page
  cannot be read, \<open>_read_template_size\<close> of the editor gives the Letter size 612 by 792,
  whereas \<open>create_patient_report\<close> has no fallback: compositing the record raises, the
  driver counts the record as failed, shows a warning for it and goes on, and no file is
  written.  The messages of the batch are one warning for each record, in order, and the
  closing summary.
\<close>

theorem unreadable_geometry_aborts_record:
  assumes "csv_path st = Some cp" "template_path st = Some tp"
    and "files st cp = Some (CsvFile rows)"
    and "files st tp = Some (PdfFile (pg # pgs))" "mediabox pg = None"
    and "gen_template_path gen = tp"
  shows "PdfReader (files st) tp = Inr (pg # pgs) \<and>
         read_template_size (files st) tp = (612, 792) \<and>
         create_patient_report e gen r csv_dir n out st = Inl MediaBoxError \<and>
         status (generate_reports e pre sched st) = Done 0 (length rows) \<and>
         files (generate_reports e pre sched st) = files st \<and>
         messages (generate_reports e pre sched st) =
           messages st @
           map (\<lambda>r. Warning_Record (row_get r ''name'' (CStr (py ''Unknown''))) MediaBoxError) rows @
           [if rows = [] then Info_All 0 else Warning_Partial 0 (length rows)]"
proof -
  have te: "template_error (files st) tp = Some MediaBoxError"
    using assms(4,5) by (simp add: template_error_def PdfReader_def first_page_def page_size_def)
  then have te': "template_error (files st) (gen_template_path gen) = Some MediaBoxError"
    using assms(6) by simp
  have sz: "read_template_size (files st) tp = (612, 792)"
    using assms(4,5) by (simp add: read_template_size_def PdfReader_def first_page_def page_size_def)
  have op: "PdfReader (files st) tp = Inr (pg # pgs)"
    using assms(4) by (simp add: PdfReader_def)
  show ?thesis
    using op sz create_template_error [OF te'] generate_reports_template_error [OF assms(1-3) te]
    by simp
qed

text \<open>The statement above on a one-page template without a readable media box.\<close>

theorem unreadable_geometry_aborts_record_witness:
  "read_template_size (files (demo_state (PdfFile [demo_page\<lparr>mediabox := None\<rparr>])
       [demo_row ''John Doe'' ''a.png''])) (py ''t.pdf'') = (612, 792) \<and>
   status (generate_reports demo_env [] [] (demo_state (PdfFile [demo_page\<lparr>mediabox := None\<rparr>])
       [demo_row ''John Doe'' ''a.png''])) = Done 0 1"
  using unreadable_geometry_aborts_record [of
      "demo_state (PdfFile [demo_page\<lparr>mediabox := None\<rparr>]) [demo_row ''John Doe'' ''a.png'']"
      "py ''d/p.csv''" "py ''t.pdf''" "[demo_row ''John Doe'' ''a.png'']"
      "demo_page\<lparr>mediabox := None\<rparr>" "[]" "ReportGenerator (py ''t.pdf'') 0"
      demo_env "demo_row ''John Doe'' ''a.png''" "py ''d''" 1 "py ''reports''" "[]" "[]"]
  by (simp add: demo_state_def demo_page_def ReportGenerator_def py_def)

text \<open>
  C4 as stated fails: the document opens, reading the geometry raises, and compositing
  the record aborts with that error; the driver reports 0 of 1.
\<close>

theorem unreadable_geometry_no_fallback:
  "PdfReader (files (demo_state (PdfFile [demo_page\<lparr>mediabox := None\<rparr>])
       [demo_row ''John Doe'' ''a.png''])) (py ''t.pdf'') = Inr [demo_page\<lparr>mediabox := None\<rparr>] \<and>
   create_patient_report demo_env (ReportGenerator (py ''t.pdf'') 0)
     (demo_row ''John Doe'' ''a.png'') (py ''d'') 1 (py ''reports'')
     (demo_state (PdfFile [demo_page\<lparr>mediabox := None\<rparr>]) [demo_row ''John Doe'' ''a.png''])
     = Inl MediaBoxError \<and>
   messages (generate_reports demo_env [] []
     (demo_state (PdfFile [demo_page\<lparr>mediabox := None\<rparr>]) [demo_row ''John Doe'' ''a.png'']))
     = [Warning_Record (CStr (py ''John Doe'')) MediaBoxError, Warning_Partial 0 1]"
  by (simp add: run_defs dec.simps)

section \<open>Missing images\<close>

lemma root_update_nil: "root_update [] st = st"
  by (simp add: root_update_def)

lemma create_frame:
  assumes "create_patient_report e gen r csv_dir n (py ''reports'') st = Inr (p, st')"
  shows "heap st' = heap st"
    and "q \<noteq> report_path e r \<Longrightarrow> files st' q = files st q"
  using assms
  by (auto simp: create_patient_report_def report_path_def Let_def split: sum.splits if_splits)

lemma generate_loop_frame:
  assumes "q \<notin> report_path e ` set rows"
  shows "files (snd (generate_loop e gen csv_dir nt i rows sched ok st)) q = files st q"
  using assms
proof (induction rows arbitrary: i sched ok st)
  case Nil
  then show ?case by simp
next
  case (Cons r rows)
  let ?who = "(if py_strip (py_str (row_get r ''name'' (CStr []))) = []
               then py ''Patient_'' @ str_int (int i + 1)
               else py_strip (py_str (row_get r ''name'' (CStr []))))"
  let ?st1 = "root_update (concat (take 1 sched)) (st\<lparr>status := Generating (i + 1) nt ?who\<rparr>)"
  have q: "q \<noteq> report_path e r" "q \<notin> report_path e ` set rows"
    using Cons.prems by auto
  show ?case
  proof (cases "create_patient_report e gen r csv_dir (int i + 1) (py ''reports'') ?st1")
    case (Inl err)
    then show ?thesis using Cons.IH [OF q(2)] by (simp add: Let_def)
  next
    case (Inr ps)
    obtain p st2 where ps: "ps = (p, st2)" by (cases ps)
    have "files st2 q = files ?st1 q"
      using Inr ps q(1) create_frame(2) [of e gen r csv_dir "int i + 1" ?st1 p st2 q] by simp
    then show ?thesis using Inr ps Cons.IH [OF q(2)] by (simp add: Let_def)
  qed
qed

lemma generate_loop_heap:
  "heap (snd (generate_loop e gen csv_dir nt i rows [] ok st)) = heap st"
proof (induction rows arbitrary: i ok st)
  case Nil
  show ?case by simp
next
  case (Cons r rows)
  let ?who = "(if py_strip (py_str (row_get r ''name'' (CStr []))) = []
               then py ''Patient_'' @ str_int (int i + 1)
               else py_strip (py_str (row_get r ''name'' (CStr []))))"
  let ?st1 = "st\<lparr>status := Generating (i + 1) nt ?who\<rparr>"
  show ?case
  proof (cases "create_patient_report e gen r csv_dir (int i + 1) (py ''reports'') ?st1")
    case (Inl err)
    then show ?thesis using Cons.IH by (simp add: Let_def root_update_nil)
  next
    case (Inr ps)
    obtain p st2 where ps: "ps = (p, st2)" by (cases ps)
    have "heap st2 = heap ?st1"
      using Inr ps create_frame(1) [of e gen r csv_dir "int i + 1" ?st1 p st2] by simp
    then show ?thesis using Inr ps Cons.IH by (simp add: Let_def root_update_nil)
  qed
qed

lemma generate_loop_append:
  "generate_loop e gen csv_dir nt i (xs @ ys) [] ok st =
     generate_loop e gen csv_dir nt (i + length xs) ys []
       (fst (generate_loop e gen csv_dir nt i xs [] ok st))
       (snd (generate_loop e gen csv_dir nt i xs [] ok st))"
proof (induction xs arbitrary: i ok st)
  case Nil
  show ?case by simp
next
  case (Cons r xs)
  show ?case
    by (simp add: Let_def Cons.IH split: sum.splits)
qed

lemma overlay_missing:
  assumes "fc ''image'' = Some (x, y)"
    and "py_strip (py_str (row_get r ''image_path'' (CStr []))) = rel" "rel \<noteq> []"
    and "fs (os_path_normpath e (os_path_join e csv_dir rel)) = None"
  shows "overlay e fs fc r csv_dir n pw ph =
           draw_text_fields fc r n pw ph [SetFont ''Helvetica'' 12] @
           [SetFont ''Helvetica'' 9,
            DrawString (max 0 (min pw x)) (to_pdf_y y ph) (py ''Image not found''),
            SetFont ''Helvetica'' 12,
            SetFont ''Helvetica'' 8,
            DrawRightString (float_sub pw 20) 15 (py ''Generated: '' @ now e)]"
  using assms
  by (simp add: overlay_def draw_patient_image_def draw_image_placeholder_def
      add_timestamp_def Let_def)

lemma generate_loop_step_success:
  assumes "files st (gen_template_path gen) = Some (PdfFile (pg # pgs))"
    and "mediabox pg = Some (pw, ph)"
    and "\<forall>p. can_write e p"
  shows "generate_loop e gen csv_dir nt i (r # rows) [] ok st =
           generate_loop e gen csv_dir nt (i + 1) rows [] (ok + 1)
             (st\<lparr>status := Generating (i + 1) nt
                     (if py_strip (py_str (row_get r ''name'' (CStr []))) = []
                      then py ''Patient_'' @ str_int (int i + 1)
                      else py_strip (py_str (row_get r ''name'' (CStr [])))),
                 files := (files st)(report_path e r \<mapsto>
                   PdfFile [pg\<lparr>content := content pg @
                     overlay e (files st) (heap st (gen_field_coordinates gen))
                       r csv_dir (int i + 1) pw ph\<rparr>])\<rparr>)"
proof -
  let ?st1 = "st\<lparr>status := Generating (i + 1) nt
                     (if py_strip (py_str (row_get r ''name'' (CStr []))) = []
                      then py ''Patient_'' @ str_int (int i + 1)
                      else py_strip (py_str (row_get r ''name'' (CStr []))))\<rparr>"
  have t: "files ?st1 (gen_template_path gen) = Some (PdfFile (pg # pgs))"
    using assms(1) by simp
  have w: "can_write e (os_path_join e (py ''reports'')
           (slugify (py_str (row_get r ''name'' (CStr []))) @ py ''_report.pdf''))"
    using assms(3) by simp
  show ?thesis
    using create_success [OF t assms(2) w, of csv_dir "int i + 1"]
    by (simp add: Let_def root_update_nil report_path_def)
qed

text \<open>
  C9.  With a readable template and writable output files, every batch ends with as many
  successes as records and no warning, whatever happens during \<open>root.update()\<close> and
  whatever the image paths are (6 of 6 for six records one of which has a nonexistent
  image path).  In the run without interference, for a record \<open>r\<close> of the batch whose
  resolved image path does not exist: if no record's report path is the template or that
  image path, and no later record has the report path of \<open>r\<close>, then the file written
  for \<open>r\<close> is the template page with, painted over it, the text fields of \<open>r\<close> numbered
  by its position, the placeholder text \<open>"Image not found"\<close> at the image field position
  in place of an image, and the timestamp.
\<close>

theorem missing_image_still_succeeds:
  assumes "csv_path st = Some cp" "template_path st = Some tp"
    and "files st cp = Some (CsvFile (xs @ r # ys))"
    and "files st tp = Some (PdfFile (pg # pgs))" "mediabox pg = Some (pw, ph)"
    and "\<forall>p. can_write e p"
    and "heap st (field_coordinates st) ''image'' = Some (x, y)"
    and "py_strip (py_str (row_get r ''image_path'' (CStr []))) = rel" "rel \<noteq> []"
    and "os_path_normpath e (os_path_join e (os_path_dirname e cp) rel) = img_path"
    and "files st img_path = None"
    and "\<forall>r' \<in> set (xs @ r # ys). report_path e r' \<noteq> tp \<and> report_path e r' \<noteq> img_path"
    and "\<forall>r' \<in> set ys. report_path e r' \<noteq> report_path e r"
  shows "status (generate_reports e pre sched st) =
           Done (length (xs @ r # ys)) (length (xs @ r # ys)) \<and>
         messages (generate_reports e pre sched st) =
           messages st @ [Info_All (length (xs @ r # ys))] \<and>
         files (generate_reports e [] [] st) (report_path e r) =
           Some (PdfFile [pg\<lparr>content := content pg @
             draw_text_fields (heap st (field_coordinates st)) r (int (length xs) + 1) pw ph
               [SetFont ''Helvetica'' 12] @
             [SetFont ''Helvetica'' 9,
              DrawString (max 0 (min pw x)) (to_pdf_y y ph) (py ''Image not found''),
              SetFont ''Helvetica'' 12,
              SetFont ''Helvetica'' 8,
              DrawRightString (float_sub pw 20) 15 (py ''Generated: '' @ now e)]\<rparr>])"
proof -
  let ?rows = "xs @ r # ys"
  let ?st1 = "st\<lparr>status := ReadingCsv\<rparr>"
  let ?gen = "ReportGenerator tp (field_coordinates st)"
  let ?d = "os_path_dirname e cp"
  let ?nt = "length ?rows"
  have ok: "template_error (files st) tp = None"
    using assms(4,5) by (rule template_ok_intro)
  have batch: "status (generate_reports e pre sched st) = Done ?nt ?nt \<and>
         messages (generate_reports e pre sched st) = messages st @ [Info_All ?nt]"
    using assms(1-3) ok assms(6) by (rule generate_reports_all_succeed)
  \<comment> \<open>the records before r\<close>
  let ?A = "generate_loop e ?gen ?d ?nt 0 xs [] 0 ?st1"
  let ?sa = "snd ?A"
  have xs_out: "tp \<notin> report_path e ` set xs" "img_path \<notin> report_path e ` set xs"
    using assms(12) by auto
  have fa_t: "files ?sa tp = Some (PdfFile (pg # pgs))"
    using generate_loop_frame [OF xs_out(1), of ?gen ?d ?nt 0 "[]" 0 ?st1] assms(4) by simp
  have fa_i: "files ?sa img_path = None"
    using generate_loop_frame [OF xs_out(2), of ?gen ?d ?nt 0 "[]" 0 ?st1] assms(11) by simp
  have ha: "heap ?sa = heap st"
    using generate_loop_heap [of e ?gen ?d ?nt 0 xs 0 ?st1] by simp
  \<comment> \<open>the record r\<close>
  have t: "files ?sa (gen_template_path ?gen) = Some (PdfFile (pg # pgs))"
    using fa_t by (simp add: ReportGenerator_def)
  have fc: "heap ?sa (gen_field_coordinates ?gen) = heap st (field_coordinates st)"
    using ha by (simp add: ReportGenerator_def)
  have miss: "files ?sa (os_path_normpath e (os_path_join e ?d rel)) = None"
    using fa_i assms(10) by simp
  have ov: "overlay e (files ?sa) (heap ?sa (gen_field_coordinates ?gen)) r ?d
              (int (0 + length xs) + 1) pw ph =
            draw_text_fields (heap st (field_coordinates st)) r (int (length xs) + 1) pw ph
               [SetFont ''Helvetica'' 12] @
             [SetFont ''Helvetica'' 9,
              DrawString (max 0 (min pw x)) (to_pdf_y y ph) (py ''Image not found''),
              SetFont ''Helvetica'' 12,
              SetFont ''Helvetica'' 8,
              DrawRightString (float_sub pw 20) 15 (py ''Generated: '' @ now e)]"
    unfolding fc
    using overlay_missing [of "heap st (field_coordinates st)" x y r rel "files ?sa" e ?d
        "int (0 + length xs) + 1" pw ph] assms(7,8,9) miss
    by simp
  note step = generate_loop_step_success [OF t assms(5,6), of ?d ?nt "0 + length xs" r ys "fst ?A"]
  \<comment> \<open>the records after r\<close>
  have ys_out: "report_path e r \<notin> report_path e ` set ys"
    using assms(13) by auto
  have loop: "generate_loop e ?gen ?d ?nt 0 ?rows [] 0 ?st1 =
              generate_loop e ?gen ?d ?nt (0 + length xs) (r # ys) [] (fst ?A) ?sa"
    by (rule generate_loop_append)
  have final: "files (snd (generate_loop e ?gen ?d ?nt 0 ?rows [] 0 ?st1)) (report_path e r) =
      Some (PdfFile [pg\<lparr>content := content pg @
             draw_text_fields (heap st (field_coordinates st)) r (int (length xs) + 1) pw ph
               [SetFont ''Helvetica'' 12] @
             [SetFont ''Helvetica'' 9,
              DrawString (max 0 (min pw x)) (to_pdf_y y ph) (py ''Image not found''),
              SetFont ''Helvetica'' 12,
              SetFont ''Helvetica'' 8,
              DrawRightString (float_sub pw 20) 15 (py ''Generated: '' @ now e)]\<rparr>])"
    unfolding loop step generate_loop_frame [OF ys_out]
    using ov by simp
  have csv: "read_csv (files ?st1) cp = Inr ?rows"
    using assms(3) by (simp add: read_csv_def)
  have run: "files (generate_reports e [] [] st) =
             files (snd (generate_loop e ?gen ?d ?nt 0 ?rows [] 0 ?st1))"
    using assms(1,2) csv
    by (simp add: generate_reports_def Let_def root_update_nil case_prod_beta)
  show ?thesis using batch final run by simp
qed

text \<open>Six records, the third with an image path that does not exist: 6 of 6.\<close>

theorem missing_image_still_succeeds_witness:
  "status (generate_reports demo_env [] []
     (demo_state (PdfFile [demo_page])
        [demo_row ''A'' ''a.png'', demo_row ''B'' ''a.png'', demo_row ''C'' ''zz.png'',
         demo_row ''D'' ''a.png'', demo_row ''E'' ''a.png'', demo_row ''F'' ''a.png''])) = Done 6 6 \<and>
   messages (generate_reports demo_env [] []
     (demo_state (PdfFile [demo_page])
        [demo_row ''A'' ''a.png'', demo_row ''B'' ''a.png'', demo_row ''C'' ''zz.png'',
         demo_row ''D'' ''a.png'', demo_row ''E'' ''a.png'', demo_row ''F'' ''a.png''])) = [Info_All 6] \<and>
   files (generate_reports demo_env [] []
     (demo_state (PdfFile [demo_page])
        [demo_row ''A'' ''a.png'', demo_row ''B'' ''a.png'', demo_row ''C'' ''zz.png'',
         demo_row ''D'' ''a.png'', demo_row ''E'' ''a.png'', demo_row ''F'' ''a.png'']))
     (py ''reports/C_report.pdf'') =
     Some (PdfFile [\<lparr>mediabox = Some (612, 792), content =
        [SetFont ''Helvetica'' 12, DrawString 220 697 (py ''03''), DrawString 230 607 (py ''C''),
         SetFont ''Helvetica'' 9, DrawString 375 627 (py ''Image not found''),
         SetFont ''Helvetica'' 12, SetFont ''Helvetica'' 8,
         DrawRightString 592 15 (py ''Generated: 2024-05-01 10:00:00'')]\<rparr>])"
  using missing_image_still_succeeds [of
      "demo_state (PdfFile [demo_page])
        [demo_row ''A'' ''a.png'', demo_row ''B'' ''a.png'', demo_row ''C'' ''zz.png'',
         demo_row ''D'' ''a.png'', demo_row ''E'' ''a.png'', demo_row ''F'' ''a.png'']"
      "py ''d/p.csv''" "py ''t.pdf''"
      "[demo_row ''A'' ''a.png'', demo_row ''B'' ''a.png'']" "demo_row ''C'' ''zz.png''"
      "[demo_row ''D'' ''a.png'', demo_row ''E'' ''a.png'', demo_row ''F'' ''a.png'']"
      demo_page "[]" 612 792 demo_env 375 165 "py ''zz.png''" "py ''d/zz.png''" "[]" "[]"]
  by (simp add: demo_state_def demo_page_def demo_env_def demo_coords_def demo_row_def
      report_path_def row_get_def py_strip_def isspace_def py_def slugify_def
      slugify_filename_def replace_space_def slug_char_def draw_text_fields_def draw_text_def
      to_pdf_y_def float_sub_def format_02d_def dec.simps)

section \<open>The mapping during a pass\<close>

lemma apply_mutation_lim:
  assumes "field_coordinates st < lim st"
  shows "field_coordinates (apply_mutation st m) < lim (apply_mutation st m)"
  using assms by (cases m) simp_all

lemma root_update_lim:
  assumes "field_coordinates st < lim st"
  shows "field_coordinates (root_update evs st) < lim (root_update evs st)"
  using assms unfolding root_update_def
  by (induction evs arbitrary: st) (simp_all add: apply_mutation_lim)

lemma rebind_keeps_heap:
  assumes "list_all is_rebind evs" "g < lim st"
  shows "heap (root_update evs st) g = heap st g \<and> g < lim (root_update evs st)"
  using assms unfolding root_update_def
proof (induction evs arbitrary: st)
  case Nil
  then show ?case by simp
next
  case (Cons m evs)
  from Cons.prems(1) obtain d where m: "m = Rebind d" by (cases m) simp_all
  have h: "heap (apply_mutation st m) g = heap st g" "g < lim (apply_mutation st m)"
    using Cons.prems(2) m by simp_all
  from Cons.prems(1) have "list_all is_rebind evs" by simp
  from Cons.IH [OF this h(2)] h(1) show ?case by simp
qed

lemma create_shape:
  assumes "create_patient_report e gen r csv_dir n out st = Inr (p, st')"
  shows "st' = st\<lparr>files := files st'\<rparr>"
  using assms
  by (auto simp: create_patient_report_def Let_def split: sum.splits if_splits)

lemma create_same_view:
  assumes "files sa = files sb"
    and "heap sa (gen_field_coordinates gen) = heap sb (gen_field_coordinates gen)"
  shows "create_patient_report e gen r csv_dir n out sa =
           (case create_patient_report e gen r csv_dir n out sb of
              Inl err \<Rightarrow> Inl err
            | Inr (p, s) \<Rightarrow> Inr (p, sa\<lparr>files := files s\<rparr>))"
  using assms
  by (auto simp: create_patient_report_def Let_def split: sum.splits)

lemma generate_loop_rebind:
  assumes "list_all (list_all is_rebind) sched"
    and "gen_field_coordinates gen < lim sa"
    and "files sa = files sb" "messages sa = messages sb"
    and "heap sa (gen_field_coordinates gen) = heap sb (gen_field_coordinates gen)"
  shows "fst (generate_loop e gen csv_dir nt i rows sched ok sa) =
           fst (generate_loop e gen csv_dir nt i rows [] ok sb) \<and>
         files (snd (generate_loop e gen csv_dir nt i rows sched ok sa)) =
           files (snd (generate_loop e gen csv_dir nt i rows [] ok sb)) \<and>
         messages (snd (generate_loop e gen csv_dir nt i rows sched ok sa)) =
           messages (snd (generate_loop e gen csv_dir nt i rows [] ok sb))"
  using assms
proof (induction rows arbitrary: i sched ok sa sb)
  case Nil
  then show ?case by simp
next
  case (Cons r rows)
  let ?g = "gen_field_coordinates gen"
  let ?who = "(if py_strip (py_str (row_get r ''name'' (CStr []))) = []
               then py ''Patient_'' @ str_int (int i + 1)
               else py_strip (py_str (row_get r ''name'' (CStr []))))"
  let ?a0 = "sa\<lparr>status := Generating (i + 1) nt ?who\<rparr>"
  let ?a1 = "root_update (concat (take 1 sched)) ?a0"
  let ?b1 = "sb\<lparr>status := Generating (i + 1) nt ?who\<rparr>"
  let ?w = "Warning_Record (row_get r ''name'' (CStr (py ''Unknown'')))"
  have evs: "list_all is_rebind (concat (take 1 sched))"
    using Cons.prems(1) by (cases sched) simp_all
  have rest: "list_all (list_all is_rebind) (drop 1 sched)"
    using Cons.prems(1) by (cases sched) simp_all
  have "?g < lim ?a0" using Cons.prems(2) by simp
  from rebind_keeps_heap [OF evs this]
  have ha: "heap ?a1 ?g = heap sa ?g" and la: "?g < lim ?a1" by simp_all
  have fa: "files ?a1 = files ?b1" using Cons.prems(3) by simp
  have ma: "messages ?a1 = messages ?b1" using Cons.prems(4) by simp
  have hb: "heap ?a1 ?g = heap ?b1 ?g" using ha Cons.prems(5) by simp
  note cv = create_same_view [OF fa hb, of e r csv_dir "int i + 1" "py ''reports''"]
  have b_step: "root_update (concat (take 1 [])) ?b1 = ?b1" by (simp add: root_update_def)
  show ?case
  proof (cases "create_patient_report e gen r csv_dir (int i + 1) (py ''reports'') ?b1")
    case (Inl err)
    then have ca: "create_patient_report e gen r csv_dir (int i + 1) (py ''reports'') ?a1 = Inl err"
      using cv by simp
    let ?a2 = "?a1\<lparr>messages := messages ?a1 @ [?w err]\<rparr>"
    let ?b2 = "?b1\<lparr>messages := messages ?b1 @ [?w err]\<rparr>"
    have ih: "fst (generate_loop e gen csv_dir nt (i + 1) rows (drop 1 sched) ok ?a2) =
           fst (generate_loop e gen csv_dir nt (i + 1) rows [] ok ?b2) \<and>
         files (snd (generate_loop e gen csv_dir nt (i + 1) rows (drop 1 sched) ok ?a2)) =
           files (snd (generate_loop e gen csv_dir nt (i + 1) rows [] ok ?b2)) \<and>
         messages (snd (generate_loop e gen csv_dir nt (i + 1) rows (drop 1 sched) ok ?a2)) =
           messages (snd (generate_loop e gen csv_dir nt (i + 1) rows [] ok ?b2))"
      using la fa ma hb by (intro Cons.IH [OF rest]) simp_all
    show ?thesis
      using ih ca Inl b_step by (simp add: Let_def)
  next
    case (Inr ps)
    obtain p s2 where ps: "ps = (p, s2)" by (cases ps)
    have cb: "create_patient_report e gen r csv_dir (int i + 1) (py ''reports'') ?b1 = Inr (p, s2)"
      using Inr ps by simp
    let ?a2 = "?a1\<lparr>files := files s2\<rparr>"
    have ca: "create_patient_report e gen r csv_dir (int i + 1) (py ''reports'') ?a1 = Inr (p, ?a2)"
      using cv cb by simp
    have s2: "s2 = ?b1\<lparr>files := files s2\<rparr>" using cb by (rule create_shape)
    have m2: "messages s2 = messages ?b1" by (subst s2) simp
    have h2: "heap s2 ?g = heap ?b1 ?g" by (subst s2) simp
    have ih: "fst (generate_loop e gen csv_dir nt (i + 1) rows (drop 1 sched) (ok + 1) ?a2) =
           fst (generate_loop e gen csv_dir nt (i + 1) rows [] (ok + 1) s2) \<and>
         files (snd (generate_loop e gen csv_dir nt (i + 1) rows (drop 1 sched) (ok + 1) ?a2)) =
           files (snd (generate_loop e gen csv_dir nt (i + 1) rows [] (ok + 1) s2)) \<and>
         messages (snd (generate_loop e gen csv_dir nt (i + 1) rows (drop 1 sched) (ok + 1) ?a2)) =
           messages (snd (generate_loop e gen csv_dir nt (i + 1) rows [] (ok + 1) s2))"
      using la ma hb m2 h2 by (intro Cons.IH [OF rest]) simp_all
    show ?thesis
      using ih ca cb b_step by (simp add: Let_def)
  qed
qed

text \<open>
  C2, as the code has it.  The generator keeps a reference to the caller's dictionary and
  takes no copy.  What leaves a pass unchanged is binding the attribute of the application
  to another dictionary after the generator was constructed: a run in which every change
  made during the \<open>root.update()\<close> calls of the loop is such a rebinding writes the same
  files and shows the same messages and status as the run without any change.  The
  hypothesis on \<open>lim\<close> says that the dictionary of the application was allocated: its
  address lies below the next free one.
\<close>

theorem rebinding_leaves_pass_unchanged:
  assumes "list_all (list_all is_rebind) sched" "field_coordinates st < lim st"
  shows "files (generate_reports e pre sched st) = files (generate_reports e pre [] st) \<and>
         messages (generate_reports e pre sched st) = messages (generate_reports e pre [] st) \<and>
         status (generate_reports e pre sched st) = status (generate_reports e pre [] st)"
proof (cases "csv_path st")
  case None
  then show ?thesis by (simp add: generate_reports_def)
next
  case (Some cp)
  note cp = this
  show ?thesis
  proof (cases "template_path st")
    case None
    then show ?thesis using cp by (simp add: generate_reports_def)
  next
    case (Some tp)
    let ?st1 = "root_update pre (st\<lparr>status := ReadingCsv\<rparr>)"
    let ?gen = "ReportGenerator tp (field_coordinates ?st1)"
    show ?thesis
    proof (cases "read_csv (files ?st1) cp")
      case (Inl err)
      then show ?thesis using cp Some by (simp add: generate_reports_def Let_def)
    next
      case (Inr df)
      have "field_coordinates (st\<lparr>status := ReadingCsv\<rparr>) < lim (st\<lparr>status := ReadingCsv\<rparr>)"
        using assms(2) by simp
      then have l: "gen_field_coordinates ?gen < lim ?st1"
        using root_update_lim [of "st\<lparr>status := ReadingCsv\<rparr>" pre]
        by (simp add: ReportGenerator_def)
      from generate_loop_rebind [OF assms(1) l, of ?st1 e "os_path_dirname e cp" "length df" 0 df 0]
      show ?thesis
        using cp Some Inr by (simp add: generate_reports_def Let_def case_prod_beta)
    qed
  qed
qed

text \<open>A run in which the attribute is bound to an empty dictionary before the first record.\<close>

theorem rebinding_leaves_pass_unchanged_witness:
  "files (generate_reports demo_env [] [[Rebind Map.empty]]
            (demo_state (PdfFile [demo_page]) [demo_row ''John Doe'' ''a.png'']))
     = files (generate_reports demo_env [] []
            (demo_state (PdfFile [demo_page]) [demo_row ''John Doe'' ''a.png'']))"
  using rebinding_leaves_pass_unchanged [of "[[Rebind Map.empty]]"
      "demo_state (PdfFile [demo_page]) [demo_row ''John Doe'' ''a.png'']" demo_env "[]"]
  by (simp add: demo_state_def)

text \<open>
  C2 as stated fails: an assignment to the entry \<open>name\<close> of the caller's dictionary, made
  after the generator was constructed, moves the name in the report of that pass.
\<close>

theorem in_place_mutation_changes_output:
  "files (generate_reports demo_env [] [[SetItem ''name'' (10, 20)]]
            (demo_state (PdfFile [demo_page]) [demo_row ''John Doe'' ''zz.png'']))
         (py ''reports/John_Doe_report.pdf'') \<noteq>
   files (generate_reports demo_env [] []
            (demo_state (PdfFile [demo_page]) [demo_row ''John Doe'' ''zz.png'']))
         (py ''reports/John_Doe_report.pdf'') \<and>
   files (generate_reports demo_env [] [[SetItem ''name'' (10, 20)]]
            (demo_state (PdfFile [demo_page]) [demo_row ''John Doe'' ''zz.png'']))
         (py ''reports/John_Doe_report.pdf'') =
     Some (PdfFile [\<lparr>mediabox = Some (612, 792), content =
        [SetFont ''Helvetica'' 12, DrawString 220 697 (py ''01''),
         DrawString 10 772 (py ''John Doe''),
         SetFont ''Helvetica'' 9, DrawString 375 627 (py ''Image not found''),
         SetFont ''Helvetica'' 12, SetFont ''Helvetica'' 8,
         DrawRightString 592 15 (py ''Generated: 2024-05-01 10:00:00'')]\<rparr>]) \<and>
   files (generate_reports demo_env [] []
            (demo_state (PdfFile [demo_page]) [demo_row ''John Doe'' ''zz.png'']))
         (py ''reports/John_Doe_report.pdf'') =
     Some (PdfFile [\<lparr>mediabox = Some (612, 792), content =
        [SetFont ''Helvetica'' 12, DrawString 220 697 (py ''01''),
         DrawString 230 607 (py ''John Doe''),
         SetFont ''Helvetica'' 9, DrawString 375 627 (py ''Image not found''),
         SetFont ''Helvetica'' 12, SetFont ''Helvetica'' 8,
         DrawRightString 592 15 (py ''Generated: 2024-05-01 10:00:00'')]\<rparr>])"
  by (simp add: run_defs dec.simps)

section \<open>The text of the bed number\<close>

lemma length_dec_pos: "0 < length (dec n)"
  by (subst dec.simps) simp

lemma dec_digit: "n < 10 \<Longrightarrow> dec n = [48 + n]"
  by (subst dec.simps) simp

lemma length_dec_two: "10 \<le> n \<Longrightarrow> n < 100 \<Longrightarrow> length (dec n) = 2"
  by (subst dec.simps) (simp add: dec_digit)

lemma length_dec_three:
  assumes "100 \<le> n"
  shows "3 \<le> length (dec n)"
proof -
  have "\<not> n < 10" using assms by linarith
  then have a: "dec n = dec (n div 10) @ [48 + n mod 10]"
    by (subst dec.simps) (simp only: if_False)
  have "\<not> n div 10 < 10" using assms by linarith
  then have b: "dec (n div 10) = dec (n div 10 div 10) @ [48 + n div 10 mod 10]"
    by (subst dec.simps) (simp only: if_False)
  have "dec (n div 10 div 10) \<noteq> []"
    using length_dec_pos [of "n div 10 div 10"] by simp
  then show ?thesis
    by (cases "dec (n div 10 div 10)") (simp_all add: a b)
qed

lemma foldl_draw_text_append:
  "foldl (draw_text fc pw ph) (c @ d) kts = c @ foldl (draw_text fc pw ph) d kts"
proof (induction kts arbitrary: d)
  case Nil
  show ?case by simp
next
  case (Cons kt kts)
  have "draw_text fc pw ph (c @ d) kt = c @ draw_text fc pw ph d kt"
    by (simp add: draw_text_def split: option.splits)
  then show ?case using Cons.IH by simp
qed

lemma draw_text_fields_bed:
  assumes "fc ''bed_id'' = Some (x_top, y_top)"
  shows "draw_text_fields fc r n pw ph canvas =
           canvas @ DrawString (max 0 (min pw x_top)) (to_pdf_y y_top ph) (format_02d n) #
             other_text_fields fc r pw ph"
proof -
  let ?op = "DrawString (max 0 (min pw x_top)) (to_pdf_y y_top ph) (format_02d n)"
  let ?kts = "[(''name'', row_get r ''name'' (CStr [])),
        (''age'', row_get r ''age'' (CStr [])),
        (''gender'', row_get r ''gender'' (CStr [])),
        (''attendees'', row_get r ''attendees'' (CStr [])),
        (''date_of_diagnosis'', row_get r ''date_of_diagnosis'' (CStr [])),
        (''cancer_type'', row_get r ''cancer_type'' (CStr [])),
        (''cancer_stage'', row_get r ''cancer_stage'' (CStr [])),
        (''cancer_grade'', row_get r ''cancer_grade'' (CStr []))]"
  have a: "draw_text fc pw ph canvas (''bed_id'', CStr (format_02d n)) = (canvas @ [?op]) @ []"
    using assms by (simp add: draw_text_def)
  have "draw_text_fields fc r n pw ph canvas =
          foldl (draw_text fc pw ph) (draw_text fc pw ph canvas (''bed_id'', CStr (format_02d n))) ?kts"
    by (subst draw_text_fields_def, subst foldl_Cons, rule refl)
  also have "\<dots> = foldl (draw_text fc pw ph) ((canvas @ [?op]) @ []) ?kts"
    by (subst a, rule refl)
  also have "\<dots> = (canvas @ [?op]) @ foldl (draw_text fc pw ph) [] ?kts"
    by (rule foldl_draw_text_append)
  also have "\<dots> = canvas @ ?op # other_text_fields fc r pw ph"
    by (simp add: other_text_fields_def)
  finally show ?thesis .
qed

lemma other_text_fields_ignore_bed:
  "other_text_fields fc (r(''bed_id'' \<mapsto> v)) pw ph = other_text_fields fc r pw ph"
  by (simp add: other_text_fields_def row_get_def)

lemma format_02d_nonneg:
  assumes "0 \<le> n"
  shows "format_02d n = (if n < 10 then [48, 48 + nat n] else str_int n) \<and>
         (length (format_02d n) = 2 \<longleftrightarrow> n < 100)"
proof -
  consider "n < 10" | "10 \<le> n" "n < 100" | "100 \<le> n" by linarith
  then show ?thesis
  proof cases
    case 1
    then have "dec (nat n) = [48 + nat n]" using assms by (intro dec_digit) simp
    then show ?thesis using 1 assms by (simp add: format_02d_def)
  next
    case 2
    then have "length (dec (nat n)) = 2" by (intro length_dec_two) simp_all
    then show ?thesis using 2 by (simp add: format_02d_def str_int_def)
  next
    case 3
    then have "3 \<le> length (dec (nat n))" by (intro length_dec_three) simp
    then show ?thesis using 3 by (simp add: format_02d_def str_int_def)
  qed
qed

text \<open>
  C5, as the code has it.  For every record and every sequential identifier \<open>n \<ge> 1\<close>, the
  text drawn for \<open>bed_id\<close> is the decimal representation of \<open>n\<close> padded with zeros to a
  width of at least two, whatever the record holds (a \<open>bed_id\<close> entry of the record
  included): one zero and the digit for \<open>n < 10\<close>, the plain decimal representation
  otherwise; it has exactly two digits if and only if \<open>n < 100\<close>.
\<close>

theorem bed_id_text_is_padded_counter:
  assumes "fc ''bed_id'' = Some (x_top, y_top)" "1 \<le> n"
  shows "draw_text_fields fc r n pw ph canvas =
           canvas @ DrawString (max 0 (min pw x_top)) (to_pdf_y y_top ph) (format_02d n) #
             other_text_fields fc r pw ph \<and>
         draw_text_fields fc (r(''bed_id'' \<mapsto> v)) n pw ph canvas =
           draw_text_fields fc r n pw ph canvas \<and>
         format_02d n = (if n < 10 then [48, 48 + nat n] else str_int n) \<and>
         (length (format_02d n) = 2 \<longleftrightarrow> n < 100)"
proof -
  have n: "0 \<le> n" using assms(2) by simp
  note d1 = draw_text_fields_bed [of fc x_top y_top r n pw ph canvas, OF assms(1)]
  note d2 = draw_text_fields_bed [of fc x_top y_top "r(''bed_id'' \<mapsto> v)" n pw ph canvas,
      OF assms(1)]
  have d3: "draw_text_fields fc (r(''bed_id'' \<mapsto> v)) n pw ph canvas =
              draw_text_fields fc r n pw ph canvas"
    by (simp only: d1 d2 other_text_fields_ignore_bed)
  from format_02d_nonneg [OF n] d1 d3 show ?thesis by blast
qed

text \<open>The seventh record, whose data hold a \<open>bed_id\<close> of their own.\<close>

theorem bed_id_text_is_padded_counter_witness:
  "draw_text_fields demo_coords ((demo_row ''John Doe'' ''a.png'')(''bed_id'' \<mapsto> CStr (py ''B-12''))) 7 612 792 []
     = [DrawString 220 697 (py ''07''), DrawString 230 607 (py ''John Doe'')] \<and>
   format_02d 7 = py ''07'' \<and> length (format_02d 7) = 2"
  using bed_id_text_is_padded_counter [of demo_coords 220 95 7 "demo_row ''John Doe'' ''a.png''"
      612 792 "[]" "CStr (py ''B-12'')"]
  by (simp add: demo_coords_def demo_row_def other_text_fields_def draw_text_def row_get_def
      to_pdf_y_def float_sub_def py_def)

text \<open>C5 as stated fails for the hundredth record: its text has three digits.\<close>

theorem bed_id_text_three_digits:
  "draw_text_fields demo_coords ((demo_row ''John Doe'' ''a.png'')(''bed_id'' \<mapsto> CStr (py ''B-12''))) 100 612 792 []
     = [DrawString 220 697 (py ''100''), DrawString 230 607 (py ''John Doe'')] \<and>
   format_02d 100 = py ''100'' \<and> length (format_02d 100) = 3"
  by (simp add: run_defs dec.simps)

section \<open>The size of the drawn image\<close>

lemma double_1_8: "to_double (18 / 10) = 8106479329266893 / 4503599627370496"
  by (subst to_double_binade [of 0]) (simp_all add: py_round_def)

lemma max_side_value: "max_side = 4559894622712627 / 35184372088832"
  unfolding max_side_def float_mul_def double_1_8
  by (subst to_double_binade [of 7]) (simp_all add: py_round_def)

lemma double_129_6: "to_double (648 / 5) = 4559894622712627 / 35184372088832"
  by (subst to_double_binade [of 7]) (simp_all add: py_round_def)

lemma double_64_8: "to_double (324 / 5) = 4559894622712627 / 70368744177664"
  by (subst to_double_binade [of 6]) (simp_all add: py_round_def)

lemma double_86_4: "to_double (432 / 5) = 3039929748475085 / 35184372088832"
  by (subst to_double_binade [of 6]) (simp_all add: py_round_def)

lemma half_max_side:
  "float_mul (float_div 200 400) (4559894622712627 / 35184372088832)
     = 4559894622712627 / 70368744177664"
proof -
  have q: "float_div 200 400 = 1 / 2"
    unfolding float_div_def by (subst to_double_binade [of "- 1"]) (simp_all add: py_round_def)
  show ?thesis
    unfolding float_mul_def q by (subst to_double_binade [of 6]) (simp_all add: py_round_def)
qed

lemma two_thirds_max_side:
  "float_mul (float_div 200 300) (4559894622712627 / 35184372088832)
     = 6079859496950169 / 70368744177664"
proof -
  have q: "float_div 200 300 = 6004799503160661 / 9007199254740992"
    unfolding float_div_def by (subst to_double_binade [of "- 1"]) (simp_all add: py_round_def)
  show ?thesis
    unfolding float_mul_def q by (subst to_double_binade [of 6]) (simp_all add: py_round_def)
qed

lemma image_y_position:
  "float_sub 627 (4559894622712627 / 70368744177664) = 2472581748542669 / 4398046511104"
  unfolding float_sub_def by (subst to_double_binade [of 9]) (simp_all add: py_round_def)

lemma is_double_max_side: "is_double max_side"
  unfolding is_double_def max_side_value
  by (subst to_double_binade [of 7]) (simp_all add: py_round_def)

lemma max_side_bounds: "128 \<le> max_side" "max_side \<le> 130"
  by (simp_all add: max_side_value)

lemma shorter_side:
  fixes a b :: int
  assumes "0 < a" "a \<le> b"
  shows "0 \<le> float_mul (float_div (of_int a) (of_int b)) max_side"
    and "float_mul (float_div (of_int a) (of_int b)) max_side \<le> max_side"
proof -
  let ?r = "real_of_int a / real_of_int b"
  have r: "0 \<le> ?r" "?r \<le> 1" using assms by simp_all
  have f0: "0 \<le> to_double ?r" using r(1) by (rule to_double_nonneg)
  have f1: "to_double ?r \<le> 1"
    using r by (intro to_double_le is_double_one) simp_all
  have m0: "0 \<le> max_side" using max_side_bounds(1) by simp
  have p0: "0 \<le> to_double ?r * max_side" using f0 m0 by simp
  have p1: "to_double ?r * max_side \<le> max_side"
    using mult_right_mono [OF f1 m0] by simp
  show "0 \<le> float_mul (float_div (of_int a) (of_int b)) max_side"
    unfolding float_mul_def float_div_def using p0 by (rule to_double_nonneg)
  show "float_mul (float_div (of_int a) (of_int b)) max_side \<le> max_side"
    unfolding float_mul_def float_div_def
    using p0 p1 m0 by (intro to_double_le is_double_max_side) simp_all
qed

lemma to_double_error_pos:
  assumes "2 powi (- 1022) \<le> x"
  shows "\<bar>to_double x - x\<bar> \<le> x / 2 ^ 53"
proof -
  have "0 < x" by (rule less_le_trans [OF two_powi_pos assms])
  then have a: "\<bar>x\<bar> = x" by (rule abs_of_pos)
  have "2 powi (- 1022) \<le> \<bar>x\<bar>" unfolding a by (rule assms)
  then have "\<bar>to_double x - x\<bar> \<le> \<bar>x\<bar> / 2 ^ 53" by (rule to_double_error)
  then show ?thesis unfolding a .
qed

lemma tiny_le: "(2::real) powi (- 1022) \<le> 1 / 2 ^ 31"
proof -
  have "(2::real) powi (- 1022) \<le> 2 powi (- int 31)" by (rule two_powi_mono) simp
  also have "(2::real) powi (- int 31) = inverse (2 powi int 31)" by (rule power_int_minus)
  also have "\<dots> = 1 / 2 ^ 31" by (simp only: two_powi_of_nat inverse_eq_divide)
  finally show ?thesis .
qed

lemma shorter_side_error:
  fixes a b :: int
  assumes "0 < a" "a \<le> b" "b < 2 ^ 31"
  shows "\<bar>float_mul (float_div (of_int a) (of_int b)) max_side * of_int b - max_side * of_int a\<bar>
           \<le> max_side * of_int a / 2 ^ 51"
proof -
  define r where "r = real_of_int a / real_of_int b"
  define f where "f = to_double r"
  define p where "p = f * max_side"
  define s where "s = to_double p"
  have b0: "0 < real_of_int b" using assms by simp
  have r1: "r \<le> 1" "0 < r" unfolding r_def using assms by simp_all
  have "1 / 2 ^ 31 \<le> 1 / real_of_int b"
    using assms by (intro divide_left_mono) simp_all
  also have "\<dots> \<le> r" unfolding r_def using assms b0 by (intro divide_right_mono) simp_all
  finally have rlo: "1 / 2 ^ 31 \<le> r" .
  have "2 powi (- 1022) \<le> r" by (rule order_trans [OF tiny_le rlo])
  then have "\<bar>to_double r - r\<bar> \<le> r / 2 ^ 53" by (rule to_double_error_pos)
  then have fe: "\<bar>f - r\<bar> \<le> r / 2 ^ 53" by (simp only: f_def)
  have m: "128 \<le> max_side" "max_side \<le> 130" by (rule max_side_bounds)+
  have h: "r / 2 ^ 53 \<le> r / 2" using r1 by simp
  have flo: "r / 2 \<le> f" using fe h by linarith
  have fhi: "f \<le> 2 * r" using fe h r1 by linarith
  have "r \<le> r / 2 * 128" using r1 by simp
  also have "\<dots> \<le> f * max_side"
    using flo m(1) r1 by (intro mult_mono) simp_all
  finally have plo: "r \<le> p" by (simp add: p_def)
  have p0: "0 \<le> p" using plo r1 by linarith
  have "2 powi (- 1022) \<le> p" by (rule order_trans [OF order_trans [OF tiny_le rlo] plo])
  then have "\<bar>to_double p - p\<bar> \<le> p / 2 ^ 53" by (rule to_double_error_pos)
  then have se: "\<bar>s - p\<bar> \<le> p / 2 ^ 53" by (simp only: s_def)
  have "p \<le> 2 * r * max_side"
    unfolding p_def using fhi m(1) by (intro mult_right_mono) simp_all
  then have se': "\<bar>s - p\<bar> \<le> 2 * r * max_side / 2 ^ 53"
    using se by (simp add: field_simps) 
  have "\<bar>p - r * max_side\<bar> = \<bar>f - r\<bar> * max_side"
  proof -
    have "p - r * max_side = (f - r) * max_side" by (simp add: p_def algebra_simps)
    moreover have "\<bar>max_side\<bar> = max_side" using m(1) by simp
    ultimately show ?thesis by (simp only: abs_mult)
  qed
  also have "\<dots> \<le> r / 2 ^ 53 * max_side"
    using fe m(1) by (intro mult_right_mono) simp_all
  finally have pe: "\<bar>p - r * max_side\<bar> \<le> r * max_side / 2 ^ 53" by simp
  have "\<bar>s - r * max_side\<bar> \<le> \<bar>s - p\<bar> + \<bar>p - r * max_side\<bar>" by simp
  also have "\<dots> \<le> 2 * r * max_side / 2 ^ 53 + r * max_side / 2 ^ 53"
    using se' pe by (rule add_mono)
  also have "\<dots> \<le> r * max_side / 2 ^ 51"
  proof -
    have "0 \<le> r * max_side" using r1 m(1) by simp
    then show ?thesis by (simp add: field_simps)
  qed
  finally have e: "\<bar>s - r * max_side\<bar> \<le> r * max_side / 2 ^ 51" .
  have "\<bar>s * of_int b - max_side * of_int a\<bar> = \<bar>s - r * max_side\<bar> * of_int b"
  proof -
    have "r * of_int b = of_int a" unfolding r_def using b0 by simp
    then have "s * of_int b - max_side * of_int a = (s - r * max_side) * of_int b"
      by (simp add: algebra_simps)
    then show ?thesis using b0 by (simp add: abs_mult)
  qed
  also have "\<dots> \<le> r * max_side / 2 ^ 51 * of_int b"
    using e b0 by (intro mult_right_mono) simp_all
  also have "\<dots> = max_side * of_int a / 2 ^ 51"
    unfolding r_def using b0 by simp
  finally show ?thesis by (simp add: s_def p_def f_def r_def float_mul_def float_div_def)
qed

lemma draw_patient_image_drawn:
  assumes "fc ''image'' = Some (x, y)"
    and "py_strip (py_str (row_get r ''image_path'' (CStr []))) = rel" "rel \<noteq> []"
    and "os_path_normpath e (os_path_join e csv_dir rel) = img_path"
    and "fs img_path = Some (ImageFile iw ih)"
    and "image_draw_size iw ih = Inr (w, h)"
  shows "draw_patient_image e fs fc r csv_dir pw ph canvas =
           canvas @ [DrawImage img_path (max 0 (min pw x)) (float_sub (to_pdf_y y ph) h) w h]"
  using assms
  by (simp add: draw_patient_image_def Image_open_size_def drawImage_error_def Let_def)

lemma image_draw_size_positive:
  assumes "0 < iw" "0 < ih"
  shows "\<exists>w h. image_draw_size iw ih = Inr (w, h) \<and>
           (w, h) = (if ih \<le> iw
                     then (max_side, float_mul (float_div (of_int ih) (of_int iw)) max_side)
                     else (float_mul (float_div (of_int iw) (of_int ih)) max_side, max_side)) \<and>
           max w h = max_side \<and> 0 \<le> min w h \<and>
           (iw < 2 ^ 31 \<and> ih < 2 ^ 31 \<longrightarrow>
              \<bar>w * of_int ih - h * of_int iw\<bar> \<le> max_side * of_int (min iw ih) / 2 ^ 51)"
proof (cases "ih \<le> iw")
  case True
  let ?h = "float_mul (float_div (of_int ih) (of_int iw)) max_side"
  note s = shorter_side [OF assms(2) True]
  have sz: "image_draw_size iw ih = Inr (max_side, ?h)"
    using assms True by (simp add: image_draw_size_def)
  have e: "iw < 2 ^ 31 \<longrightarrow>
      \<bar>max_side * of_int ih - ?h * of_int iw\<bar> \<le> max_side * of_int ih / 2 ^ 51"
    using shorter_side_error [OF assms(2) True] by (simp add: abs_minus_commute)
  have mn: "min iw ih = ih" using True by simp
  show ?thesis
    using sz s e True mn by (simp add: max_def min_def)
next
  case False
  then have lt: "iw \<le> ih" by simp
  let ?w = "float_mul (float_div (of_int iw) (of_int ih)) max_side"
  note s = shorter_side [OF assms(1) lt]
  have sz: "image_draw_size iw ih = Inr (?w, max_side)"
    using assms False by (simp add: image_draw_size_def)
  have e: "ih < 2 ^ 31 \<longrightarrow>
      \<bar>?w * of_int ih - max_side * of_int iw\<bar> \<le> max_side * of_int iw / 2 ^ 51"
    using shorter_side_error [OF assms(1) lt] by simp
  have mn: "min iw ih = iw" using False by simp
  show ?thesis
    using sz s e False mn by (simp add: max_def min_def)
qed

text \<open>
  C7, as the code has it.  For every image with positive pixel sizes \<open>(iw, ih)\<close> that
  \<open>drawImage\<close> can decode, the image is drawn with its longer side equal to
  \<open>max_side = 1.8 * 72.0\<close>, which is the float 129.6, and its shorter side equal to the
  float product of the float quotient shorter/longer and \<open>max_side\<close>, a value between 0
  and \<open>max_side\<close>.  The aspect ratio is kept up to the rounding of the quotient and of
  the product: for sizes below \<open>2^31\<close> the products \<open>w * ih\<close> and \<open>h * iw\<close> differ by at
  most \<open>max_side * min iw ih / 2^51\<close>.  400 by 200 gives the floats \<open>(129.6, 64.8)\<close> and
  200 by 400 gives \<open>(64.8, 129.6)\<close>.
\<close>

theorem image_longer_side_is_max_side:
  assumes "0 < iw" "0 < ih"
    and "fc ''image'' = Some (x, y)"
    and "py_strip (py_str (row_get r ''image_path'' (CStr []))) = rel" "rel \<noteq> []"
    and "os_path_normpath e (os_path_join e csv_dir rel) = img_path"
    and "fs img_path = Some (ImageFile iw ih)"
  shows "max_side = to_double 129.6 \<and>
         (\<exists>w h. image_draw_size iw ih = Inr (w, h) \<and>
           (w, h) = (if ih \<le> iw
                     then (max_side, float_mul (float_div (of_int ih) (of_int iw)) max_side)
                     else (float_mul (float_div (of_int iw) (of_int ih)) max_side, max_side)) \<and>
           max w h = max_side \<and> 0 \<le> min w h \<and>
           (iw < 2 ^ 31 \<and> ih < 2 ^ 31 \<longrightarrow>
              \<bar>w * of_int ih - h * of_int iw\<bar> \<le> max_side * of_int (min iw ih) / 2 ^ 51) \<and>
           draw_patient_image e fs fc r csv_dir pw ph canvas =
             canvas @ [DrawImage img_path (max 0 (min pw x)) (float_sub (to_pdf_y y ph) h) w h]) \<and>
         image_draw_size 400 200 = Inr (to_double 129.6, to_double 64.8) \<and>
         image_draw_size 200 400 = Inr (to_double 64.8, to_double 129.6)"
proof -
  from image_draw_size_positive [OF assms(1,2)] obtain w h where wh:
    "image_draw_size iw ih = Inr (w, h)"
    "(w, h) = (if ih \<le> iw
               then (max_side, float_mul (float_div (of_int ih) (of_int iw)) max_side)
               else (float_mul (float_div (of_int iw) (of_int ih)) max_side, max_side))"
    "max w h = max_side" "0 \<le> min w h"
    "iw < 2 ^ 31 \<and> ih < 2 ^ 31 \<longrightarrow>
       \<bar>w * of_int ih - h * of_int iw\<bar> \<le> max_side * of_int (min iw ih) / 2 ^ 51"
    by blast
  have d: "draw_patient_image e fs fc r csv_dir pw ph canvas =
             canvas @ [DrawImage img_path (max 0 (min pw x)) (float_sub (to_pdf_y y ph) h) w h]"
    using assms(3-7) wh(1) by (rule draw_patient_image_drawn)
  have v: "image_draw_size 400 200 = Inr (to_double 129.6, to_double 64.8)"
    "image_draw_size 200 400 = Inr (to_double 64.8, to_double 129.6)"
    by (simp_all add: image_draw_size_def max_side_value half_max_side double_129_6 double_64_8)
  have ms: "max_side = to_double 129.6" by (simp add: max_side_value double_129_6)
  from wh d have ex: "\<exists>w h. image_draw_size iw ih = Inr (w, h) \<and>
           (w, h) = (if ih \<le> iw
                     then (max_side, float_mul (float_div (of_int ih) (of_int iw)) max_side)
                     else (float_mul (float_div (of_int iw) (of_int ih)) max_side, max_side)) \<and>
           max w h = max_side \<and> 0 \<le> min w h \<and>
           (iw < 2 ^ 31 \<and> ih < 2 ^ 31 \<longrightarrow>
              \<bar>w * of_int ih - h * of_int iw\<bar> \<le> max_side * of_int (min iw ih) / 2 ^ 51) \<and>
           draw_patient_image e fs fc r csv_dir pw ph canvas =
             canvas @ [DrawImage img_path (max 0 (min pw x)) (float_sub (to_pdf_y y ph) h) w h]"
    by blast
  show ?thesis using ms ex v by blast
qed

text \<open>The image of 400 by 200 pixels of the example world.\<close>

theorem image_longer_side_is_max_side_witness:
  "draw_patient_image demo_env [py ''d/a.png'' \<mapsto> ImageFile 400 200] demo_coords
     (demo_row ''John Doe'' ''a.png'') (py ''d'') 612 792 []
     = [DrawImage (py ''d/a.png'') 375 (2472581748542669 / 4398046511104)
          (4559894622712627 / 35184372088832) (4559894622712627 / 70368744177664)]"
proof -
  have h: "(0::int) < 400" "(0::int) < 200" "demo_coords ''image'' = Some (375, 165)"
    "py_strip (py_str (row_get (demo_row ''John Doe'' ''a.png'') ''image_path'' (CStr []))) = py ''a.png''"
    "py ''a.png'' \<noteq> []"
    "os_path_normpath demo_env (os_path_join demo_env (py ''d'') (py ''a.png'')) = py ''d/a.png''"
    "[py ''d/a.png'' \<mapsto> ImageFile 400 200] (py ''d/a.png'') = Some (ImageFile 400 200)"
    by (simp_all add: demo_coords_def demo_row_def demo_env_def row_get_def py_strip_def
        isspace_def py_def)
  from image_longer_side_is_max_side [of 400 200 demo_coords 375 165
      "demo_row ''John Doe'' ''a.png''" "py ''a.png''" demo_env "py ''d''" "py ''d/a.png''"
      "[py ''d/a.png'' \<mapsto> ImageFile 400 200]" 612 792 "[]"] h
  obtain w h where a: "image_draw_size 400 200 = Inr (w, h)"
    and b: "draw_patient_image demo_env [py ''d/a.png'' \<mapsto> ImageFile 400 200] demo_coords
       (demo_row ''John Doe'' ''a.png'') (py ''d'') 612 792 [] =
       [] @ [DrawImage (py ''d/a.png'') (max 0 (min 612 375)) (float_sub (to_pdf_y 165 792) h) w h]"
    and c: "image_draw_size 400 200 = Inr (to_double 129.6, to_double 64.8)"
    by blast
  from a c have w: "w = 4559894622712627 / 35184372088832"
    and h: "h = 4559894622712627 / 70368744177664"
    by (simp_all add: double_129_6 double_64_8)
  show ?thesis
    unfolding b w h
    by (simp add: to_pdf_y_def float_sub_def [of 792] image_y_position)
qed

text \<open>
  C7 as stated fails: for 300 by 200 the drawn height is 86.39999999999999, that is
  \<open>6079859496950169 / 2^46\<close>, which is neither \<open>(200/300) * 129.6\<close> nor the float nearest
  to it, and \<open>w * ih\<close> differs from \<open>h * iw\<close>.
\<close>

theorem image_aspect_ratio_rounds:
  "image_draw_size 300 200 =
     Inr (4559894622712627 / 35184372088832, 6079859496950169 / 70368744177664) \<and>
   (6079859496950169 / 70368744177664 :: real) \<noteq> 200 / 300 * 129.6 \<and>
   (6079859496950169 / 70368744177664 :: real) \<noteq> to_double (200 / 300 * 129.6) \<and>
   (4559894622712627 / 35184372088832 :: real) * 200 \<noteq> 6079859496950169 / 70368744177664 * 300"
  by (simp add: image_draw_size_def max_side_value two_thirds_max_side double_86_4)

end
